theory Spec2Isabelle
  imports Complex_Main
begin

section \<open>JavaScript string primitives used by the post client\<close>

text \<open>
  Strings are lists of characters. The source works on UTF-16 code units; the model
  covers the code units below 256, which is where every character the code looks for
  (period, space, quote, brace, backslash, back-tick) lives.

  \<open>isWhiteSpace\<close> is the set that \<open>String.prototype.trim\<close> strips and that the regular
  expression class \<open>\s\<close> matches, restricted to that range: TAB, LF, VT, FF, CR, SPACE and
  NO-BREAK SPACE.
\<close>

definition isWhiteSpace :: "char \<Rightarrow> bool" where
  "isWhiteSpace c =
     (c = CHR 0x09 \<or> c = CHR 0x0A \<or> c = CHR 0x0B \<or> c = CHR 0x0C \<or> c = CHR 0x0D
      \<or> c = CHR 0x20 \<or> c = CHR 0xA0)"

definition trimStart :: "string \<Rightarrow> string" where
  "trimStart s = dropWhile isWhiteSpace s"

definition trimEnd :: "string \<Rightarrow> string" where
  "trimEnd s = rev (dropWhile isWhiteSpace (rev s))"

definition trim :: "string \<Rightarrow> string" where
  "trim s = trimEnd (trimStart s)"

text \<open>
  \<open>text.slice(0, end)\<close>: a negative \<open>end\<close> counts from the end of the string, and the
  result is clamped to the string.
\<close>

definition slice0 :: "string \<Rightarrow> int \<Rightarrow> string" where
  "slice0 s e =
     (let n = int (length s);
          e' = (if e < 0 then max (n + e) 0 else min e n)
      in take (nat e') s)"

text \<open>
  \<open>text.lastIndexOf(c, position)\<close> for a one-character search string: the greatest index
  \<open>i \<le> position\<close> with \<open>text[i] = c\<close>, or \<open>-1\<close> when there is none. A negative
  position is treated as 0.
\<close>

fun scanLast :: "char \<Rightarrow> string \<Rightarrow> nat \<Rightarrow> int \<Rightarrow> int" where
  "scanLast c [] i found = found"
| "scanLast c (x # xs) i found = scanLast c xs (Suc i) (if x = c then int i else found)"

definition lastIndexOfFrom :: "char \<Rightarrow> string \<Rightarrow> int \<Rightarrow> int" where
  "lastIndexOfFrom c s position = scanLast c (take (nat (max position 0) + 1) s) 0 (- 1)"

definition lastIndexOf :: "char \<Rightarrow> string \<Rightarrow> int" where
  "lastIndexOf c s = lastIndexOfFrom c s (int (length s))"

section \<open>Truncation helpers\<close>

definition MAX_TWEET_LENGTH :: int where
  "MAX_TWEET_LENGTH = 240"

definition ellipsis :: string where
  "ellipsis = ''...''"

definition truncateToCompleteSentence :: "string \<Rightarrow> int \<Rightarrow> string" where
  "truncateToCompleteSentence text maxTweetLength =
     (if int (length text) \<le> maxTweetLength then text
      else
        let truncatedAtPeriod =
              slice0 text (lastIndexOfFrom (CHR ''.'') text maxTweetLength + 1)
        in if length (trim truncatedAtPeriod) > 0 then trim truncatedAtPeriod
           else
             let truncatedAtSpace =
                   slice0 text (lastIndexOfFrom (CHR '' '') text maxTweetLength)
             in if length (trim truncatedAtSpace) > 0 then trim truncatedAtSpace @ ellipsis
                else trim (slice0 text (maxTweetLength - 3)) @ ellipsis)"

definition trimTweetLength :: "string \<Rightarrow> int \<Rightarrow> string" where
  "trimTweetLength text maxLength =
     (if int (length text) \<le> maxLength then text
      else
        let lastSentence = lastIndexOf (CHR ''.'') (slice0 text maxLength)
        in if lastSentence > 0 then trim (slice0 text (lastSentence + 1))
           else trim (slice0 text (lastIndexOfFrom (CHR '' '') text (maxLength - 3)))
                @ ellipsis)"

section \<open>Randomised scheduling of a saved post\<close>

text \<open>
  \<open>parseInt(setting) || dflt\<close>: the setting is given as the result of \<open>parseInt\<close>, with
  \<open>None\<close> for \<open>NaN\<close>; \<open>NaN\<close> and \<open>0\<close> are both falsy and select the default.
\<close>

definition parseIntOr :: "int option \<Rightarrow> int \<Rightarrow> int" where
  "parseIntOr v dflt = (case v of None \<Rightarrow> dflt | Some n \<Rightarrow> if n = 0 then dflt else n)"

text \<open>
  \<open>lastPost[0]?.createdAt ?? new Date()\<close>: the creation time (milliseconds) of the first
  pending post, or the current time when there is none.
\<close>

definition lastPostTimestamp :: "int option list \<Rightarrow> int \<Rightarrow> int" where
  "lastPostTimestamp lastPost now =
     (case lastPost of [] \<Rightarrow> now | None # _ \<Rightarrow> now | Some t # _ \<Rightarrow> t)"

text \<open>
  Numbers of the source are IEEE 754 doubles. The integers that occur here (minutes,
  milliseconds) are far below \<open>2^53\<close> and are computed exactly, so only the product
  \<open>Math.random() * (maxMinutes - minMinutes + 120)\<close> is rounded. \<open>roundDouble\<close> is rounding to
  the nearest double, ties to even: \<open>exponentOf a\<close> is the binary exponent of the positive
  number \<open>a\<close> (the least exponent, \<open>-1022\<close>, for subnormal numbers), found by stepping from
  exponent 0; a double has 53 significant bits, so neighbouring doubles of that exponent
  are \<open>2^(exponent - 52)\<close> apart. Overflow beyond the largest double is not modelled.
\<close>

definition pow2 :: "int \<Rightarrow> real" where
  "pow2 e = (if 0 \<le> e then 2 ^ nat e else 1 / 2 ^ nat (- e))"

fun expUp :: "nat \<Rightarrow> int \<Rightarrow> real \<Rightarrow> int" where
  "expUp 0 e a = e"
| "expUp (Suc n) e a = (if a < pow2 (e + 1) then e else expUp n (e + 1) a)"

fun expDown :: "nat \<Rightarrow> int \<Rightarrow> real \<Rightarrow> int" where
  "expDown 0 e a = e"
| "expDown (Suc n) e a = (if pow2 e \<le> a then e else expDown n (e - 1) a)"

definition exponentOf :: "real \<Rightarrow> int" where
  "exponentOf a = (if 1 \<le> a then expUp 1023 0 a else expDown 1021 (- 1) a)"

definition roundHalfEven :: "real \<Rightarrow> int" where
  "roundHalfEven r =
     (let n = \<lfloor>r\<rfloor>; d = r - of_int n
      in if d < 1 / 2 then n else if 1 / 2 < d then n + 1 else if even n then n else n + 1)"

definition roundPositive :: "real \<Rightarrow> real" where
  "roundPositive a =
     (let ulp = pow2 (exponentOf a - 52) in ulp * of_int (roundHalfEven (a / ulp)))"

definition roundDouble :: "real \<Rightarrow> real" where
  "roundDouble x =
     (if x = 0 then 0 else if x < 0 then - roundPositive (- x) else roundPositive x)"

text \<open>
  \<open>Math.floor(Math.random() * (maxMinutes - minMinutes + 120)) + minMinutes\<close>, with the
  value of \<open>Math.random()\<close> as input.
\<close>

definition randomMinutes :: "real \<Rightarrow> int \<Rightarrow> int \<Rightarrow> int" where
  "randomMinutes rnd minMinutes maxMinutes =
     \<lfloor>roundDouble (rnd * real_of_int (maxMinutes - minMinutes + 120))\<rfloor> + minMinutes"

text \<open>
  \<open>randomFutureDate\<close>, with the pending posts, the clock, the two settings and the value
  of \<open>Math.random()\<close> as inputs. Dates are milliseconds since the epoch.
\<close>

definition randomFutureDate ::
  "int option list \<Rightarrow> int \<Rightarrow> int option \<Rightarrow> int option \<Rightarrow> real \<Rightarrow> int" where
  "randomFutureDate lastPost now POST_INTERVAL_MIN POST_INTERVAL_MAX rnd =
     (let minMinutes = parseIntOr POST_INTERVAL_MIN 12;
          maxMinutes = parseIntOr POST_INTERVAL_MAX 24
      in lastPostTimestamp lastPost now
           + randomMinutes rnd minMinutes maxMinutes * 60 * 1000)"

section \<open>JSON.parse\<close>

text \<open>
  \<open>JSON.parse\<close> is a built-in of the language, modelled after the JSON grammar: a lexer
  producing tokens, then a stack machine over the tokens. A number keeps its lexeme.
  A string escape \<open>\uXXXX\<close> that denotes a code unit of 256 or more cannot be written
  in the model's characters; the parser then answers \<open>Unrepresentable\<close>, which stands
  for "the model does not say", never for a result of the source.
\<close>

datatype json =
    JNull
  | JBool bool
  | JNumber string
  | JString string
  | JArray "json list"
  | JObject "(string \<times> json) list"

datatype perror = SyntaxError | Unrepresentable

datatype token =
    TLBrace | TRBrace | TLBrack | TRBrack | TColon | TComma
  | TString string | TNumber string | TTrue | TFalse | TNull

definition code :: "char \<Rightarrow> nat" where
  "code c = of_char c"

definition isDigit :: "char \<Rightarrow> bool" where
  "isDigit c = (48 \<le> code c \<and> code c \<le> 57)"

definition hexDigit :: "char \<Rightarrow> nat option" where
  "hexDigit c =
     (if 48 \<le> code c \<and> code c \<le> 57 then Some (code c - 48)
      else if 97 \<le> code c \<and> code c \<le> 102 then Some (code c - 87)
      else if 65 \<le> code c \<and> code c \<le> 70 then Some (code c - 55)
      else None)"

fun hex4 :: "string \<Rightarrow> nat option" where
  "hex4 [a, b, c, d] =
     (case (hexDigit a, hexDigit b, hexDigit c, hexDigit d) of
        (Some w, Some x, Some y, Some z) \<Rightarrow> Some (((w * 16 + x) * 16 + y) * 16 + z)
      | _ \<Rightarrow> None)"
| "hex4 _ = None"

definition unescape :: "char \<Rightarrow> char option" where
  "unescape e =
     (if e = CHR 0x22 then Some (CHR 0x22)
      else if e = CHR 0x5C then Some (CHR 0x5C)
      else if e = CHR ''/'' then Some (CHR ''/'')
      else if e = CHR ''b'' then Some (CHR 0x08)
      else if e = CHR ''f'' then Some (CHR 0x0C)
      else if e = CHR ''n'' then Some (CHR 0x0A)
      else if e = CHR ''r'' then Some (CHR 0x0D)
      else if e = CHR ''t'' then Some (CHR 0x09)
      else None)"

fun lexString :: "string \<Rightarrow> nat \<Rightarrow> string \<Rightarrow> perror + (string \<times> nat)" where
  "lexString acc k [] = Inl SyntaxError"
| "lexString acc k (c # cs) =
     (if c = CHR 0x22 then Inr (rev acc, Suc k)
      else if c = CHR 0x5C then
        (case cs of
           [] \<Rightarrow> Inl SyntaxError
         | e # cs' \<Rightarrow>
             if e = CHR ''u'' then
               (case hex4 (take 4 cs') of
                  None \<Rightarrow> Inl SyntaxError
                | Some n \<Rightarrow>
                    if n < 256 then lexString (char_of n # acc) (k + 6) (drop 4 cs')
                    else Inl Unrepresentable)
             else
               (case unescape e of
                  None \<Rightarrow> Inl SyntaxError
                | Some d \<Rightarrow> lexString (d # acc) (k + 2) cs'))
      else if code c < 32 then Inl SyntaxError
      else lexString (c # acc) (Suc k) cs)"

definition lexDigits1 :: "string \<Rightarrow> nat option" where
  "lexDigits1 cs = (let n = length (takeWhile isDigit cs) in if n = 0 then None else Some n)"

definition lexInt :: "string \<Rightarrow> nat option" where
  "lexInt cs =
     (case cs of
        [] \<Rightarrow> None
      | d # ds \<Rightarrow>
          if d = CHR ''0'' then Some 1
          else if isDigit d then Some (Suc (length (takeWhile isDigit ds)))
          else None)"

definition lexFrac :: "string \<Rightarrow> nat option" where
  "lexFrac cs =
     (case cs of
        [] \<Rightarrow> Some 0
      | d # ds \<Rightarrow>
          if d = CHR ''.'' then map_option Suc (lexDigits1 ds) else Some 0)"

definition lexExp :: "string \<Rightarrow> nat option" where
  "lexExp cs =
     (case cs of
        [] \<Rightarrow> Some 0
      | e # es \<Rightarrow>
          if e = CHR ''e'' \<or> e = CHR ''E'' then
            (case es of
               [] \<Rightarrow> None
             | s # ss \<Rightarrow>
                 if s = CHR ''+'' \<or> s = CHR ''-'' then map_option (\<lambda>n. n + 2) (lexDigits1 ss)
                 else map_option Suc (lexDigits1 es))
          else Some 0)"

definition lexNumber :: "string \<Rightarrow> nat option" where
  "lexNumber cs =
     (let sign = (case cs of [] \<Rightarrow> 0 | c # _ \<Rightarrow> if c = CHR ''-'' then 1 else 0)
      in case lexInt (drop sign cs) of
           None \<Rightarrow> None
         | Some i \<Rightarrow>
             (case lexFrac (drop (sign + i) cs) of
                None \<Rightarrow> None
              | Some f \<Rightarrow>
                  (case lexExp (drop (sign + i + f) cs) of
                     None \<Rightarrow> None
                   | Some e \<Rightarrow> Some (sign + i + f + e))))"

definition isJsonSpace :: "char \<Rightarrow> bool" where
  "isJsonSpace c = (c = CHR 0x09 \<or> c = CHR 0x0A \<or> c = CHR 0x0D \<or> c = CHR 0x20)"

definition consTok :: "token \<Rightarrow> perror + token list \<Rightarrow> perror + token list" where
  "consTok t r = (case r of Inl e \<Rightarrow> Inl e | Inr ts \<Rightarrow> Inr (t # ts))"

fun tokens :: "string \<Rightarrow> perror + token list" where
  "tokens [] = Inr []"
| "tokens (c # cs) =
     (if isJsonSpace c then tokens cs
      else if c = CHR ''{'' then consTok TLBrace (tokens cs)
      else if c = CHR ''}'' then consTok TRBrace (tokens cs)
      else if c = CHR ''['' then consTok TLBrack (tokens cs)
      else if c = CHR '']'' then consTok TRBrack (tokens cs)
      else if c = CHR '':'' then consTok TColon (tokens cs)
      else if c = CHR '','' then consTok TComma (tokens cs)
      else if c = CHR 0x22 then
        (case lexString [] 0 cs of
           Inl e \<Rightarrow> Inl e
         | Inr (s, k) \<Rightarrow> consTok (TString s) (tokens (drop k cs)))
      else if c = CHR ''-'' \<or> isDigit c then
        (case lexNumber (c # cs) of
           None \<Rightarrow> Inl SyntaxError
         | Some k \<Rightarrow> consTok (TNumber (take k (c # cs))) (tokens (drop (k - 1) cs)))
      else if take 4 (c # cs) = ''true'' then consTok TTrue (tokens (drop 3 cs))
      else if take 5 (c # cs) = ''false'' then consTok TFalse (tokens (drop 4 cs))
      else if take 4 (c # cs) = ''null'' then consTok TNull (tokens (drop 3 cs))
      else Inl SyntaxError)"

datatype frame = FArr "json list" | FObj "(string \<times> json) list" "string option"

datatype expect = EValue | EValueOrEnd | EKeyOrEnd | EKey | EColon | ECommaOrEnd | EDone

record pstate =
  stack :: "frame list"
  expecting :: expect
  result :: "json option"

text \<open>A complete value is returned at top level, or stored in the enclosing container.\<close>

definition putValue :: "json \<Rightarrow> frame list \<Rightarrow> pstate option" where
  "putValue v st =
     (case st of
        [] \<Rightarrow> Some \<lparr>stack = [], expecting = EDone, result = Some v\<rparr>
      | FArr vs # rest \<Rightarrow>
          Some \<lparr>stack = FArr (v # vs) # rest, expecting = ECommaOrEnd, result = None\<rparr>
      | FObj ms None # rest \<Rightarrow> None
      | FObj ms (Some k) # rest \<Rightarrow>
          Some \<lparr>stack = FObj ((k, v) # ms) None # rest, expecting = ECommaOrEnd,
                result = None\<rparr>)"

definition closeFrame :: "token \<Rightarrow> frame list \<Rightarrow> pstate option" where
  "closeFrame t st =
     (case (t, st) of
        (TRBrack, FArr vs # rest) \<Rightarrow> putValue (JArray (rev vs)) rest
      | (TRBrace, FObj ms None # rest) \<Rightarrow> putValue (JObject (rev ms)) rest
      | _ \<Rightarrow> None)"

definition startValue :: "token \<Rightarrow> frame list \<Rightarrow> pstate option" where
  "startValue t st =
     (case t of
        TString s \<Rightarrow> putValue (JString s) st
      | TNumber n \<Rightarrow> putValue (JNumber n) st
      | TTrue \<Rightarrow> putValue (JBool True) st
      | TFalse \<Rightarrow> putValue (JBool False) st
      | TNull \<Rightarrow> putValue JNull st
      | TLBrack \<Rightarrow> Some \<lparr>stack = FArr [] # st, expecting = EValueOrEnd, result = None\<rparr>
      | TLBrace \<Rightarrow> Some \<lparr>stack = FObj [] None # st, expecting = EKeyOrEnd, result = None\<rparr>
      | _ \<Rightarrow> None)"

definition setKey :: "token \<Rightarrow> frame list \<Rightarrow> pstate option" where
  "setKey t st =
     (case (t, st) of
        (TString k, FObj ms None # rest) \<Rightarrow>
          Some \<lparr>stack = FObj ms (Some k) # rest, expecting = EColon, result = None\<rparr>
      | _ \<Rightarrow> None)"

definition pstep :: "pstate \<Rightarrow> token \<Rightarrow> pstate option" where
  "pstep p t =
     (case expecting p of
        EValue \<Rightarrow> startValue t (stack p)
      | EValueOrEnd \<Rightarrow> if t = TRBrack then closeFrame t (stack p) else startValue t (stack p)
      | EKeyOrEnd \<Rightarrow> if t = TRBrace then closeFrame t (stack p) else setKey t (stack p)
      | EKey \<Rightarrow> setKey t (stack p)
      | EColon \<Rightarrow>
          if t = TColon then Some \<lparr>stack = stack p, expecting = EValue, result = None\<rparr>
          else None
      | ECommaOrEnd \<Rightarrow>
          if t = TComma then
            (case stack p of
               FArr vs # rest \<Rightarrow>
                 Some \<lparr>stack = stack p, expecting = EValue, result = None\<rparr>
             | FObj ms k # rest \<Rightarrow>
                 Some \<lparr>stack = stack p, expecting = EKey, result = None\<rparr>
             | [] \<Rightarrow> None)
          else closeFrame t (stack p)
      | EDone \<Rightarrow> None)"

fun prun :: "pstate \<Rightarrow> token list \<Rightarrow> pstate option" where
  "prun p [] = Some p"
| "prun p (t # ts) = (case pstep p t of None \<Rightarrow> None | Some p' \<Rightarrow> prun p' ts)"

definition JSON_parse :: "string \<Rightarrow> perror + json" where
  "JSON_parse s =
     (case tokens s of
        Inl e \<Rightarrow> Inl e
      | Inr ts \<Rightarrow>
          (case prun \<lparr>stack = [], expecting = EValue, result = None\<rparr> ts of
             None \<Rightarrow> Inl SyntaxError
           | Some p \<Rightarrow>
               (case result p of None \<Rightarrow> Inl SyntaxError | Some v \<Rightarrow> Inr v)))"

section \<open>Post-processing of generated content\<close>

text \<open>
  The regular expressions of \<open>generateTweetContent\<close>:
  \<open>/```json\s*/g\<close> and \<open>/```\s*/g\<close> delete every occurrence of a literal together with the
  white space after it; \<open>/\\n/g\<close> turns every backslash followed by \<open>n\<close> into a line feed.
\<close>

function removeLiteralWs :: "string \<Rightarrow> string \<Rightarrow> string" where
  "removeLiteralWs lit [] = []"
| "removeLiteralWs lit (c # cs) =
     (if lit \<noteq> [] \<and> take (length lit) (c # cs) = lit
      then removeLiteralWs lit (dropWhile isWhiteSpace (drop (length lit) (c # cs)))
      else c # removeLiteralWs lit cs)"
  by pat_completeness auto
termination
proof (relation "measure (\<lambda>(lit, s). length s)")
  fix lit :: string and c :: char and cs :: string
  assume "lit \<noteq> [] \<and> take (length lit) (c # cs) = lit"
  then obtain l ls where "lit = l # ls" by (cases lit) auto
  then have "length (drop (length lit) (c # cs)) \<le> length cs" by simp
  moreover have "length (dropWhile isWhiteSpace (drop (length lit) (c # cs)))
                   \<le> length (drop (length lit) (c # cs))"
    by (rule length_dropWhile_le)
  ultimately show "((lit, dropWhile isWhiteSpace (drop (length lit) (c # cs))), (lit, c # cs))
                     \<in> measure (\<lambda>(lit, s). length s)"
    by simp
qed simp_all

fun unescapeNewlines :: "string \<Rightarrow> string" where
  "unescapeNewlines [] = []"
| "unescapeNewlines [c] = [c]"
| "unescapeNewlines (c # d # cs) =
     (if c = CHR 0x5C \<and> d = CHR ''n'' then CHR 0x0A # unescapeNewlines cs
      else c # unescapeNewlines (d # cs))"

definition cleanResponse :: "string \<Rightarrow> string" where
  "cleanResponse response =
     trim (unescapeNewlines (removeLiteralWs ''```'' (removeLiteralWs ''```json'' response)))"

text \<open>
  Property access \<open>value.key\<close> on a parsed value: an object yields the value of the last
  member with that key, every other value has no such property (\<open>undefined\<close>). Access on
  \<open>null\<close> throws and is handled by the callers.
\<close>

definition getProp :: "json \<Rightarrow> string \<Rightarrow> json option" where
  "getProp v k = (case v of JObject ms \<Rightarrow> map_of (rev ms) k | _ \<Rightarrow> None)"

text \<open>
  What the code does with a property value depends on whether it is falsy and whether it
  is a string. \<open>Falsy\<close>: absent, \<open>null\<close>, \<open>false\<close> or the empty string. \<open>Str\<close>: a non-empty
  string. \<open>Other\<close>: a number, \<open>true\<close>, an array or an object; the source passes such a
  value to string helpers, where the outcome depends on coercions that are not modelled.
\<close>

datatype payload = Falsy | Str string | Other

definition payloadOf :: "json option \<Rightarrow> payload" where
  "payloadOf v =
     (case v of
        None \<Rightarrow> Falsy
      | Some JNull \<Rightarrow> Falsy
      | Some (JBool b) \<Rightarrow> if b then Other else Falsy
      | Some (JString s) \<Rightarrow> if s = [] then Falsy else Str s
      | Some _ \<Rightarrow> Other)"

text \<open>
  The outcome of a call that produces content: it throws, it returns a string, or the
  model does not say (\<open>Unmodelled\<close>, see \<open>Unrepresentable\<close> and \<open>Other\<close>).
\<close>

datatype generated = GenThrows | GenText string | Unmodelled

definition isObjectType :: "json \<Rightarrow> bool" where
  "isObjectType v = (case v of JObject ms \<Rightarrow> True | JArray vs \<Rightarrow> True | _ \<Rightarrow> False)"

text \<open>
  The part of \<open>generateTweetContent\<close> after the language model has answered with
  \<open>response\<close>. A \<open>SyntaxError\<close> of \<open>JSON.parse\<close> and the \<open>TypeError\<close> of reading \<open>.text\<close>
  from \<open>null\<close> are both swallowed by the \<open>catch\<close>, after which the cleaned response itself
  is trimmed to length and returned.
\<close>

definition extractContent :: "string \<Rightarrow> generated" where
  "extractContent response =
     (let cleanedResponse = cleanResponse response;
          plain = GenText (trimTweetLength cleanedResponse 280)
      in case JSON_parse cleanedResponse of
           Inl SyntaxError \<Rightarrow> plain
         | Inl Unrepresentable \<Rightarrow> Unmodelled
         | Inr JNull \<Rightarrow> plain
         | Inr jsonResponse \<Rightarrow>
             (case payloadOf (getProp jsonResponse ''text'') of
                Str s \<Rightarrow> GenText (trimTweetLength s 280)
              | Other \<Rightarrow> Unmodelled
              | Falsy \<Rightarrow>
                  if isObjectType jsonResponse then
                    (case payloadOf (getProp jsonResponse ''content'') of
                       Str s \<Rightarrow> GenText (trimTweetLength s 280)
                     | Other \<Rightarrow> Unmodelled
                     | Falsy \<Rightarrow>
                         (case payloadOf (getProp jsonResponse ''message'') of
                            Str s \<Rightarrow> GenText (trimTweetLength s 280)
                          | Other \<Rightarrow> Unmodelled
                          | Falsy \<Rightarrow>
                              (case payloadOf (getProp jsonResponse ''response'') of
                                 Str s \<Rightarrow> GenText (trimTweetLength s 280)
                               | Other \<Rightarrow> Unmodelled
                               | Falsy \<Rightarrow> plain)))
                  else plain))"

text \<open>
  \<open>generateTweetContent\<close>: the language model either fails (the exception reaches the
  caller) or answers with a text, which is post-processed.
\<close>

datatype llm = LlmThrows | LlmText string

definition generateTweetContent :: "llm \<Rightarrow> generated" where
  "generateTweetContent answer =
     (case answer of LlmThrows \<Rightarrow> GenThrows | LlmText response \<Rightarrow> extractContent response)"

section \<open>Cleaning of a newly generated post\<close>

text \<open>
  The fallback of \<open>generateNewTweet\<close> when the answer is not JSON is a chain of
  replacements. The first, \<open>/^\s*{?\s*"text":\s*"|"\s*}?\s*$/g\<close>, deletes a JSON-like
  opening \<open>{"text":"\<close> at the very start and a closing \<open>"}\<close> at the very end.
\<close>

definition dropOptional :: "char \<Rightarrow> string \<Rightarrow> string" where
  "dropOptional c s = (case s of [] \<Rightarrow> [] | x # xs \<Rightarrow> if x = c then xs else s)"

definition textKey :: string where
  "textKey = [CHR 0x22] @ ''text'' @ [CHR 0x22] @ '':''"

definition matchWrapperStart :: "string \<Rightarrow> string option" where
  "matchWrapperStart s =
     (let s2 = dropWhile isWhiteSpace (dropOptional (CHR ''{'') (dropWhile isWhiteSpace s))
      in if take (length textKey) s2 = textKey then
           (case dropWhile isWhiteSpace (drop (length textKey) s2) of
              [] \<Rightarrow> None
            | q # rest \<Rightarrow> if q = CHR 0x22 then Some rest else None)
         else None)"

definition isWrapperTail :: "string \<Rightarrow> bool" where
  "isWrapperTail t =
     (dropWhile isWhiteSpace (dropOptional (CHR ''}'') (dropWhile isWhiteSpace t)) = [])"

definition removeWrapperEnd :: "string \<Rightarrow> string" where
  "removeWrapperEnd s =
     (let q = lastIndexOf (CHR 0x22) s
      in if 0 \<le> q \<and> isWrapperTail (drop (nat q + 1) s) then take (nat q) s else s)"

definition removeJsonWrapper :: "string \<Rightarrow> string" where
  "removeJsonWrapper s =
     (case matchWrapperStart s of
        Some rest \<Rightarrow> removeWrapperEnd rest
      | None \<Rightarrow> removeWrapperEnd s)"

text \<open>
  \<open>/^['"](.*)['"]$/\<close> replaced by its group: a quote character at each end is dropped when
  nothing between them is a line terminator (which \<open>.\<close> does not match).
\<close>

definition isQuote :: "char \<Rightarrow> bool" where
  "isQuote c = (c = CHR 0x27 \<or> c = CHR 0x22)"

definition isLineTerminator :: "char \<Rightarrow> bool" where
  "isLineTerminator c = (c = CHR 0x0A \<or> c = CHR 0x0D)"

definition removeQuotes :: "string \<Rightarrow> string" where
  "removeQuotes s =
     (if 2 \<le> length s \<and> isQuote (hd s) \<and> isQuote (last s)
         \<and> \<not> list_ex isLineTerminator (butlast (tl s))
      then butlast (tl s) else s)"

fun unescapeQuotes :: "string \<Rightarrow> string" where
  "unescapeQuotes [] = []"
| "unescapeQuotes [c] = [c]"
| "unescapeQuotes (c # d # cs) =
     (if c = CHR 0x5C \<and> d = CHR 0x22 then CHR 0x22 # unescapeQuotes cs
      else c # unescapeQuotes (d # cs))"

definition cleanRawContent :: "string \<Rightarrow> string" where
  "cleanRawContent newTweetContent =
     trim (unescapeNewlines (unescapeQuotes (removeQuotes (removeJsonWrapper newTweetContent))))"

text \<open>
  The first cleaning step of \<open>generateNewTweet\<close>: the text member of a JSON answer, a JSON
  string itself, or the cleaned raw answer when parsing (or reading \<open>.text\<close> from \<open>null\<close>)
  throws. \<open>None\<close> stands for an answer outside the model.
\<close>

definition firstClean :: "string \<Rightarrow> string option" where
  "firstClean newTweetContent =
     (case JSON_parse newTweetContent of
        Inl SyntaxError \<Rightarrow> Some (cleanRawContent newTweetContent)
      | Inl Unrepresentable \<Rightarrow> None
      | Inr JNull \<Rightarrow> Some (cleanRawContent newTweetContent)
      | Inr parsedResponse \<Rightarrow>
          (case payloadOf (getProp parsedResponse ''text'') of
             Str s \<Rightarrow> Some s
           | Other \<Rightarrow> None
           | Falsy \<Rightarrow>
               (case parsedResponse of JString s \<Rightarrow> Some s | _ \<Rightarrow> Some [])))"

section \<open>The store, the network and the request queue\<close>

text \<open>
  The value of the \<open>homeTimeline\<close> column of a row. \<open>saveTweetToDb\<close> writes
  \<open>JSON.stringify(homeTimeline)\<close>, a string (\<open>TimelineText\<close>);
  \<open>checkAndSendApprovedTweets\<close> takes the fetched value as an array of posts without
  parsing it (\<open>tweet.homeTimeline as Partial<Tweet>[]\<close>). \<open>TimelineArray\<close> is a value that
  is an array, with the ids of its posts.
\<close>

datatype stored_timeline = TimelineText string | TimelineArray "string list"

text \<open>
  A row of the posts table (\<open>DBTweet\<close>), with the fields the post client reads or
  writes. \<open>status\<close> is the string the code compares with \<open>"sent"\<close>.
\<close>

record DBTweet =
  tweetId :: string
  content :: string
  scheduledFor :: int
  status :: string
  newTweetContent :: string
  mediaUrl :: "string option"
  homeTimeline :: stored_timeline
  createdAt :: int
  error :: "string option"

text \<open>
  Calls that write to the social network. \<open>SendTweet text inReplyTo withMedia\<close> is
  \<open>twitterClient.sendTweet\<close>. A call is recorded when it is issued, either inside a task
  handed to \<open>requestQueue.add\<close> (\<open>Queued\<close>) or straight on the client (\<open>Direct\<close>).
\<close>

datatype api_call =
    SendTweet string "string option" bool
  | SendQuoteTweet string string
  | LikeTweet string
  | Retweet string

datatype net_event = Queued api_call | Direct api_call

text \<open>
  A memory record written by \<open>messageManager.createMemory\<close>; its key is built from a tweet
  id and the agent id, and the agent is fixed, so the tweet id stands for the key.
  \<open>memAction\<close> is the \<open>action\<close> field of the content, when the record has one.
\<close>

record memory =
  memKey :: string
  memText :: string
  memAction :: "string option"

record world =
  tweets :: "DBTweet list"
  memories :: "memory list"
  sends :: "net_event list"
  adminLogs :: "string list"
  isProcessing :: bool

definition issue :: "net_event \<Rightarrow> world \<Rightarrow> world" where
  "issue e w = w\<lparr>sends := sends w @ [e]\<rparr>"

text \<open>
  Modelled from the spec: the queries of \<open>redux-extensions/src/db/queries\<close>
  (\<open>tweetQueries\<close>, \<open>logQueries\<close>) are not among the sources. The spec describes the store
  as record-oriented get and set keyed by id, with simple status updates and
  list-by-status queries; the definitions below are those operations on the list of
  rows: a row read back has the field values that were written. They are assumed not to
  fail. The error payloads that the code serialises into a
  row are represented by fixed strings.
\<close>

definition getSentTweetById :: "string \<Rightarrow> world \<Rightarrow> DBTweet list" where
  "getSentTweetById i w = filter (\<lambda>t. tweetId t = i) (tweets w)"

definition updateTweetStatus :: "string \<Rightarrow> string \<Rightarrow> string option \<Rightarrow> world \<Rightarrow> world" where
  "updateTweetStatus i s err w =
     w\<lparr>tweets := map (\<lambda>t. if tweetId t = i then t\<lparr>status := s, error := err\<rparr> else t)
                      (tweets w)\<rparr>"

definition markTweetAsSent :: "string \<Rightarrow> world \<Rightarrow> world" where
  "markTweetAsSent i w = updateTweetStatus i ''sent'' None w"

definition markTweetAsError :: "string \<Rightarrow> string \<Rightarrow> world \<Rightarrow> world" where
  "markTweetAsError i err w = updateTweetStatus i ''error'' (Some err) w"

definition saveTweetObject :: "DBTweet \<Rightarrow> world \<Rightarrow> world" where
  "saveTweetObject t w = w\<lparr>tweets := tweets w @ [t]\<rparr>"

definition getPendingTweets :: "world \<Rightarrow> DBTweet list" where
  "getPendingTweets w = filter (\<lambda>t. status t = ''pending'') (tweets w)"

definition saveLog :: "string \<Rightarrow> world \<Rightarrow> world" where
  "saveLog room w = w\<lparr>adminLogs := adminLogs w @ [room]\<rparr>"

text \<open>
  Modelled from the spec: the message manager of the agent runtime
  (\<open>runtime.messageManager\<close>) is not among the sources either; it is the durable store
  of records keyed by id, modelled as a list of records with \<open>createMemory\<close> appending
  and \<open>getMemoryById\<close> looking a key up.
\<close>

definition createMemory :: "memory \<Rightarrow> world \<Rightarrow> world" where
  "createMemory m w = w\<lparr>memories := memories w @ [m]\<rparr>"

definition getMemoryById :: "string \<Rightarrow> world \<Rightarrow> memory option" where
  "getMemoryById k w = find (\<lambda>m. memKey m = k) (memories w)"

text \<open>
  What comes back from a send handed to the queue: the queue or the client throws
  (\<open>QueueRejects\<close>), the body cannot be read as JSON (\<open>BodyUnreadable\<close>), the body lacks
  \<open>data.create_tweet.tweet_results.result\<close> (\<open>BadBody\<close>), or the post was created and has
  the given id (\<open>Delivered\<close>).
\<close>

datatype response = QueueRejects | BodyUnreadable | BadBody | Delivered string

datatype 'a outcome = Returned 'a | Thrown

section \<open>Sending an approved post\<close>

text \<open>
  \<open>sendTweetAndUpdateCache\<close>. After a delivered send the row is set to \<open>"sent"\<close>, the
  caches are written, and the new post is appended with \<open>homeTimeline.push(tweet)\<close>, which
  is outside any \<open>try\<close>: on a value that is a string there is no \<open>push\<close>, and the
  \<open>TypeError\<close> leaves the function. \<open>bookkeepingFails\<close> says whether one of the
  collaborators called after a delivered send (cache, room and memory creation) throws;
  that exception leaves the function too. The result is \<open>Some id\<close> of the created post, or
  \<open>None\<close> for \<open>null\<close>.
\<close>

definition sendTweetAndUpdateCache ::
  "string \<Rightarrow> stored_timeline \<Rightarrow> string \<Rightarrow> string option \<Rightarrow> bool \<Rightarrow> response \<Rightarrow> bool
     \<Rightarrow> world \<Rightarrow> string option outcome \<times> world" where
  "sendTweetAndUpdateCache text timeline newContent savedTweetId withMedia resp
     bookkeepingFails w =
     (let w1 = issue (Queued (SendTweet text None withMedia)) w
      in case resp of
           QueueRejects \<Rightarrow> (Returned None, w1)
         | BodyUnreadable \<Rightarrow> (Thrown, w1)
         | BadBody \<Rightarrow>
             (let w2 = (case savedTweetId of
                          None \<Rightarrow> w1
                        | Some i \<Rightarrow> updateTweetStatus i ''error'' (Some ''bad response'') w1)
              in (Returned None, saveLog ''twitter_send_and_update_cache_error_room'' w2))
         | Delivered rid \<Rightarrow>
             (let w2 = (case savedTweetId of
                          None \<Rightarrow> w1
                        | Some i \<Rightarrow> updateTweetStatus i ''sent'' None w1)
              in case timeline of
                   TimelineText s \<Rightarrow> (Thrown, w2)
                 | TimelineArray posts \<Rightarrow>
                     if bookkeepingFails then (Thrown, w2)
                     else (Returned (Some rid),
                           createMemory \<lparr>memKey = rid, memText = trim newContent,
                                         memAction = None\<rparr> w2)))"

text \<open>
  The body of the loop of \<open>checkAndSendApprovedTweets\<close> for one fetched row. The
  environment of one pass says whether fetching the media fails and how the send ends.
  \<open>Continue\<close> goes on with the next row; \<open>Abort\<close> is an exception that leaves the loop.
  An exception of \<open>sendTweetAndUpdateCache\<close> is caught for the row, which is then marked
  as error.
\<close>

record dispatch_env =
  imageFails :: bool
  sendResponse :: response
  afterSendFails :: bool

datatype loop_signal = Continue | Abort

definition alreadySent :: "string \<Rightarrow> world \<Rightarrow> bool" where
  "alreadySent i w = (''sent'' \<in> set (map status (getSentTweetById i w)))"

definition dispatch :: "bool \<Rightarrow> dispatch_env \<Rightarrow> DBTweet \<Rightarrow> world \<Rightarrow> loop_signal \<times> world" where
  "dispatch dryRun env tweet w =
     (if dryRun then (Continue, w)
      else if mediaUrl tweet \<noteq> None \<and> imageFails env then (Abort, w)
      else if alreadySent (tweetId tweet) w then (Continue, w)
      else
        let w1 = markTweetAsSent (tweetId tweet) w
        in case sendTweetAndUpdateCache (content tweet) (homeTimeline tweet)
                  (newTweetContent tweet)
                  (Some (tweetId tweet)) (mediaUrl tweet \<noteq> None)
                  (sendResponse env) (afterSendFails env) w1 of
             (Thrown, w2) \<Rightarrow> (Continue, markTweetAsError (tweetId tweet) ''error'' w2)
           | (Returned r, w2) \<Rightarrow> (Continue, w2))"

text \<open>
  \<open>checkAndSendApprovedTweets\<close> on the rows returned by \<open>getApprovedTweets\<close>, each paired
  with the environment of its pass. An exception inside the loop ends it and is written
  to the admin log. \<open>None\<close> for the rows means that fetching them threw.
\<close>

fun sendApproved :: "bool \<Rightarrow> (DBTweet \<times> dispatch_env) list \<Rightarrow> world \<Rightarrow> world" where
  "sendApproved dryRun [] w = w"
| "sendApproved dryRun ((tweet, env) # rest) w =
     (case dispatch dryRun env tweet w of
        (Abort, w') \<Rightarrow> saveLog ''twitter_send_approved_error_room'' w'
      | (Continue, w') \<Rightarrow> sendApproved dryRun rest w')"

definition checkAndSendApprovedTweets ::
  "bool \<Rightarrow> (DBTweet \<times> dispatch_env) list option \<Rightarrow> world \<Rightarrow> world" where
  "checkAndSendApprovedTweets dryRun approved w =
     (case approved of
        None \<Rightarrow> saveLog ''twitter_send_approved_error_room'' w
      | Some rows \<Rightarrow> sendApproved dryRun rows w)"

section \<open>Generating a new post\<close>

text \<open>
  \<open>saveTweetToDb\<close> with \<open>scheduledFor\<close> absent: the schedule time comes from
  \<open>randomFutureDate\<close> over the pending rows, and the row is stored as \<open>"pending"\<close>.
  Its only caller passes the empty array as \<open>homeTimeline\<close>, and the row gets
  \<open>JSON.stringify([])\<close>, the string \<open>[]\<close>.
\<close>

record gen_env =
  llmAnswer :: llm
  genMediaUrl :: "string option"
  genDryRun :: bool
  freshId :: string
  clock :: int
  random :: real
  intervalMin :: "int option"
  intervalMax :: "int option"
  genResponse :: response
  genAfterSendFails :: bool

definition saveTweetToDb :: "gen_env \<Rightarrow> string \<Rightarrow> string \<Rightarrow> world \<Rightarrow> world" where
  "saveTweetToDb env text newContent w =
     (let when = randomFutureDate (map (\<lambda>t. Some (createdAt t)) (getPendingTweets w))
                   (clock env) (intervalMin env) (intervalMax env) (random env)
      in saveTweetObject
           \<lparr>tweetId = freshId env, content = text, scheduledFor = when,
             status = ''pending'', newTweetContent = newContent,
             mediaUrl = genMediaUrl env, homeTimeline = TimelineText ''[]'',
             createdAt = clock env, error = None\<rparr> w)"

text \<open>
  \<open>generateNewTweet\<close>. \<open>llmAnswer\<close> is the text that the language model (or the media
  generator) produced; \<open>LlmThrows\<close> stands for an exception anywhere before that, which
  the outer \<open>catch\<close> logs. After the row is saved the function hands \<open>sendTweet\<close> to the
  request queue itself.
\<close>

datatype gen_result = GFailed | GUnmodelled | GNoContent | GDryRun | GSaved string

definition generateNewTweet :: "gen_env \<Rightarrow> world \<Rightarrow> gen_result \<times> world" where
  "generateNewTweet env w =
     (case llmAnswer env of
        LlmThrows \<Rightarrow> (GFailed, w)
      | LlmText newContent \<Rightarrow>
          (case firstClean newContent of
             None \<Rightarrow> (GUnmodelled, w)
           | Some cleaned \<Rightarrow>
               if cleaned = [] then (GNoContent, w)
               else
                 let text = truncateToCompleteSentence cleaned MAX_TWEET_LENGTH;
                     cleanedContent = removeQuotes (unescapeNewlines text)
                 in if genDryRun env then (GDryRun, w)
                    else
                      let w1 = saveTweetToDb env text newContent w;
                          w2 = issue (Queued (SendTweet cleanedContent None False)) w1
                      in case genResponse env of
                           Delivered rid \<Rightarrow>
                             if genAfterSendFails env then (GSaved (freshId env), w2)
                             else (GSaved (freshId env),
                                   createMemory \<lparr>memKey = rid, memText = trim newContent,
                                                 memAction = None\<rparr> w2)
                         | _ \<Rightarrow> (GSaved (freshId env), w2)))"

section \<open>Processing actions on the timeline\<close>

record actionResponse =
  like :: bool
  retweet :: bool
  quote :: bool
  reply :: bool

text \<open>
  An item of the timeline together with what its collaborators do during one pass:
  the classification (\<open>Thrown\<close> when composing the state or classifying throws,
  \<open>Returned None\<close> when no valid decision comes back), whether the like and retweet calls
  throw, the language model's answers for the quote and for the reply (\<open>LlmThrows\<close> also
  covers an exception while the context is built), how the two sends end, and whether
  writing the completion record throws.
\<close>

record timeline_item =
  itemId :: string
  itemText :: string
  classification :: "actionResponse option outcome"
  likeFails :: bool
  retweetFails :: bool
  quoteAnswer :: llm
  quoteResponse :: response
  replyAnswer :: llm
  replyResponse :: response
  recordFails :: bool

fun joinComma :: "string list \<Rightarrow> string" where
  "joinComma [] = []"
| "joinComma [x] = x"
| "joinComma (x # y # ys) = x @ '','' @ joinComma (y # ys)"

definition likeAction :: "timeline_item \<Rightarrow> string list \<Rightarrow> world \<Rightarrow> string list \<times> world" where
  "likeAction item executedActions w =
     (let w1 = issue (Direct (LikeTweet (itemId item))) w
      in if likeFails item then (executedActions, w1)
         else (executedActions @ [''like''], w1))"

definition retweetAction :: "timeline_item \<Rightarrow> string list \<Rightarrow> world \<Rightarrow> string list \<times> world" where
  "retweetAction item executedActions w =
     (let w1 = issue (Direct (Retweet (itemId item))) w
      in if retweetFails item then (executedActions, w1)
         else (executedActions @ [''retweet''], w1))"

text \<open>
  The quote block, which is written inline in \<open>processTweetActions\<close>: its \<open>return\<close> on
  empty content is a \<open>return\<close> of \<open>processTweetActions\<close> itself (\<open>ReturnNow\<close>).
\<close>

datatype step_signal = Proceed | ReturnNow | OutsideModel

definition quoteAction ::
  "timeline_item \<Rightarrow> string list \<Rightarrow> world \<Rightarrow> step_signal \<times> string list \<times> world" where
  "quoteAction item executedActions w =
     (case generateTweetContent (quoteAnswer item) of
        GenThrows \<Rightarrow> (Proceed, executedActions, w)
      | Unmodelled \<Rightarrow> (OutsideModel, executedActions, w)
      | GenText quoteContent \<Rightarrow>
          if quoteContent = [] then (ReturnNow, executedActions, w)
          else
            let w1 = issue (Queued (SendQuoteTweet quoteContent (itemId item))) w
            in case quoteResponse item of
                 Delivered rid \<Rightarrow> (Proceed, executedActions @ [''quote''], w1)
               | _ \<Rightarrow> (Proceed, executedActions, w1))"

text \<open>
  \<open>handleTextOnlyReply\<close>: here the \<open>return\<close> on empty content leaves the helper only.
  \<open>None\<close> stands for content outside the model.
\<close>

definition handleTextOnlyReply ::
  "timeline_item \<Rightarrow> string list \<Rightarrow> world \<Rightarrow> (string list \<times> world) option" where
  "handleTextOnlyReply item executedActions w =
     (case generateTweetContent (replyAnswer item) of
        GenThrows \<Rightarrow> Some (executedActions, w)
      | Unmodelled \<Rightarrow> None
      | GenText replyText \<Rightarrow>
          if replyText = [] then Some (executedActions, w)
          else
            let w1 = issue (Queued (SendTweet replyText (Some (itemId item)) False)) w
            in case replyResponse item of
                 Delivered rid \<Rightarrow> Some (executedActions @ [''reply''], w1)
               | _ \<Rightarrow> Some (executedActions, w1))"

text \<open>
  The body of the loop for one item. \<open>ItemSkipped\<close> and \<open>ItemFailed\<close> are the two kinds of
  \<open>continue\<close> (already processed or no decision; exception caught for the item),
  \<open>ItemDone\<close> carries the decision and the executed actions that were recorded, \<open>ItemReturn\<close> is the
  \<open>return\<close> of the quote block.
\<close>

datatype item_result =
    ItemSkipped
  | ItemFailed
  | ItemDone actionResponse "string list"
  | ItemReturn
  | ItemUnmodelled

definition processItem :: "timeline_item \<Rightarrow> world \<Rightarrow> item_result \<times> world" where
  "processItem item w =
     (if getMemoryById (itemId item) w \<noteq> None then (ItemSkipped, w)
      else case classification item of
             Thrown \<Rightarrow> (ItemFailed, w)
           | Returned None \<Rightarrow> (ItemSkipped, w)
           | Returned (Some actions) \<Rightarrow>
               let (ex1, w1) = (if like actions then likeAction item [] w else ([], w));
                   (ex2, w2) = (if retweet actions then retweetAction item ex1 w1
                                else (ex1, w1));
                   (sig, ex3, w3) = (if quote actions then quoteAction item ex2 w2
                                     else (Proceed, ex2, w2))
               in case sig of
                    ReturnNow \<Rightarrow> (ItemReturn, w3)
                  | OutsideModel \<Rightarrow> (ItemUnmodelled, w3)
                  | Proceed \<Rightarrow>
                      (case (if reply actions then handleTextOnlyReply item ex3 w3
                             else Some (ex3, w3)) of
                         None \<Rightarrow> (ItemUnmodelled, w3)
                       | Some (ex4, w4) \<Rightarrow>
                           if recordFails item then (ItemFailed, w4)
                           else (ItemDone actions ex4,
                                 createMemory \<lparr>memKey = itemId item, memText = itemText item,
                                               memAction = Some (joinComma ex4)\<rparr> w4)))"

text \<open>
  \<open>processTweetActions\<close> on the outcome \<open>fetched\<close> of \<open>fetchTimelineForActions\<close> (\<open>None\<close>
  when the fetch throws). Its result: \<open>null\<close> when a pass is already running, \<open>undefined\<close>
  after the \<open>return\<close> of the quote block, the list of results, or the exception of the
  timeline fetch thrown on to the caller.
\<close>

datatype pta_result =
    Busy
  | ReturnedUndefined
  | Results "(string \<times> actionResponse \<times> string list) list"
  | Rethrown
  | NotModelled

fun processTimeline ::
  "timeline_item list \<Rightarrow> (string \<times> actionResponse \<times> string list) list \<Rightarrow> world
     \<Rightarrow> pta_result \<times> world" where
  "processTimeline [] results w = (Results results, w)"
| "processTimeline (item # rest) results w =
     (case processItem item w of
        (ItemSkipped, w') \<Rightarrow> processTimeline rest results w'
      | (ItemFailed, w') \<Rightarrow> processTimeline rest results w'
      | (ItemDone parsedActions executed, w') \<Rightarrow>
          processTimeline rest (results @ [(itemId item, parsedActions, executed)]) w'
      | (ItemReturn, w') \<Rightarrow> (ReturnedUndefined, w')
      | (ItemUnmodelled, w') \<Rightarrow> (NotModelled, w'))"

definition processTweetActions ::
  "timeline_item list option \<Rightarrow> world \<Rightarrow> pta_result \<times> world" where
  "processTweetActions fetched w =
     (if isProcessing w then (Busy, w)
      else
        let w1 = w\<lparr>isProcessing := True\<rparr>
        in case fetched of
             None \<Rightarrow> (Rethrown, w1\<lparr>isProcessing := False\<rparr>)
           | Some items \<Rightarrow>
               (case processTimeline items [] w1 of
                  (r, w2) \<Rightarrow> (r, w2\<lparr>isProcessing := False\<rparr>)))"

section \<open>The timer loops of start\<close>

text \<open>
  \<open>start\<close> sets three loops going on Node's timers. The model keeps a virtual clock in
  milliseconds and the list of pending timers in creation order; work between two
  timer waits takes no virtual time. It counts the invocations of \<open>generateNewTweet\<close>,
  \<open>checkAndSendApprovedTweets\<close> and \<open>processTweetActions\<close>; what each of them does is
  modelled in the sections above.

  \<open>tweetInterval\<close> is the agent setting \<open>tweet_interval\<close> as \<open>parseInt\<close> reads it (\<open>None\<close>
  when the setting is missing). The settings of \<open>start\<close> are given parsed:
  \<open>POST_IMMEDIATELY\<close> is \<open>None\<close> when unset or empty, otherwise the result of
  \<open>parseBooleanFromText\<close>.
\<close>

datatype task = ApprovedTweetsLoop | GenerateTweetTimer | ActionsLoopTurn

datatype pass_kind = PassResults | PassNothing | PassThrows

record scheduler =
  nowMs :: int
  timers :: "(int \<times> task) list"
  tweetInterval :: "int option"
  settingsFail :: bool
  generated :: nat
  approvedChecks :: nat
  actionPasses :: nat
  stopProcessingActions :: bool

record start_config =
  postImmediatelyArg :: bool
  POST_IMMEDIATELY :: "bool option"
  ENABLE_ACTION_PROCESSING :: bool
  ACTION_INTERVAL :: "int option"
  passOutcome :: "nat \<Rightarrow> pass_kind"

text \<open>Node runs a timer whose delay is below 1 or above \<open>2^31 - 1\<close> after 1 millisecond.\<close>

definition setTimeout :: "task \<Rightarrow> int \<Rightarrow> scheduler \<Rightarrow> scheduler" where
  "setTimeout cb delay s =
     (let d = (if delay < 1 \<or> 2147483647 < delay then 1 else delay)
      in s\<lparr>timers := timers s @ [(nowMs s + d, cb)]\<rparr>)"

definition getPostInterval :: "scheduler \<Rightarrow> int \<times> scheduler" where
  "getPostInterval s =
     (if settingsFail s then (15 * 60 * 1000, s)
      else case tweetInterval s of
             None \<Rightarrow> (30 * 60 * 1000, s\<lparr>tweetInterval := Some 30\<rparr>)
           | Some minutes \<Rightarrow> (minutes * 60 * 1000, s))"

definition generateNewTweetLoop :: "scheduler \<Rightarrow> scheduler" where
  "generateNewTweetLoop s =
     (case getPostInterval s of (interval, s1) \<Rightarrow> setTimeout GenerateTweetTimer interval s1)"

definition startApprovedTweetsLoop :: "scheduler \<Rightarrow> scheduler" where
  "startApprovedTweetsLoop s =
     (let s1 = setTimeout ApprovedTweetsLoop (5 * 60 * 1000) s
      in s1\<lparr>approvedChecks := Suc (approvedChecks s1)\<rparr>)"

text \<open>
  One turn of the \<open>while\<close> loop of \<open>processActionsLoop\<close>: a pass, then a wait of the
  action interval when the pass returned results, of 30 seconds when it threw, and no
  wait at all when it returned nothing (the next turn is queued at the current time).
\<close>

definition processActionsLoop :: "start_config \<Rightarrow> scheduler \<Rightarrow> scheduler" where
  "processActionsLoop cfg s =
     (if stopProcessingActions s then s
      else
        let actionInterval = parseIntOr (ACTION_INTERVAL cfg) 300000;
            s1 = s\<lparr>actionPasses := Suc (actionPasses s)\<rparr>
        in case passOutcome cfg (actionPasses s) of
             PassResults \<Rightarrow> setTimeout ActionsLoopTurn actionInterval s1
           | PassNothing \<Rightarrow> s1\<lparr>timers := timers s1 @ [(nowMs s1, ActionsLoopTurn)]\<rparr>
           | PassThrows \<Rightarrow> setTimeout ActionsLoopTurn 30000 s1)"

definition start :: "start_config \<Rightarrow> scheduler \<Rightarrow> scheduler" where
  "start cfg s =
     (let s1 = startApprovedTweetsLoop s;
          postImmediately =
            (case POST_IMMEDIATELY cfg of None \<Rightarrow> postImmediatelyArg cfg | Some b \<Rightarrow> b);
          s2 = (if postImmediately then s1\<lparr>generated := Suc (generated s1)\<rparr> else s1);
          s3 = generateNewTweetLoop s2;
          s4 = (if ENABLE_ACTION_PROCESSING cfg then processActionsLoop cfg s3 else s3)
      in generateNewTweetLoop s4)"

text \<open>The callback of a timer.\<close>

definition runTask :: "start_config \<Rightarrow> task \<Rightarrow> scheduler \<Rightarrow> scheduler" where
  "runTask cfg cb s =
     (case cb of
        ApprovedTweetsLoop \<Rightarrow> startApprovedTweetsLoop s
      | GenerateTweetTimer \<Rightarrow> generateNewTweetLoop (s\<lparr>generated := Suc (generated s)\<rparr>)
      | ActionsLoopTurn \<Rightarrow> processActionsLoop cfg s)"

text \<open>
  The event loop: the pending timer with the least due time runs next, the earliest
  created among equals. \<open>runUntil fuel limit\<close> runs the timers due up to \<open>limit\<close>, at most
  \<open>fuel\<close> of them; \<open>quiet limit\<close> says that no pending timer is due by \<open>limit\<close>, so
  that a run that ends quiet was not cut short by the fuel.
\<close>

fun earliest :: "(int \<times> task) list \<Rightarrow> (int \<times> task) option" where
  "earliest [] = None"
| "earliest (x # xs) =
     (case earliest xs of
        None \<Rightarrow> Some x
      | Some y \<Rightarrow> if fst y < fst x then Some y else Some x)"

definition fire :: "start_config \<Rightarrow> int \<times> task \<Rightarrow> scheduler \<Rightarrow> scheduler" where
  "fire cfg x s =
     runTask cfg (snd x) (s\<lparr>nowMs := max (nowMs s) (fst x), timers := remove1 x (timers s)\<rparr>)"

fun runUntil :: "nat \<Rightarrow> int \<Rightarrow> start_config \<Rightarrow> scheduler \<Rightarrow> scheduler" where
  "runUntil 0 limit cfg s = s"
| "runUntil (Suc fuel) limit cfg s =
     (case earliest (timers s) of
        None \<Rightarrow> s
      | Some x \<Rightarrow> if fst x \<le> limit then runUntil fuel limit cfg (fire cfg x s) else s)"

definition quiet :: "int \<Rightarrow> scheduler \<Rightarrow> bool" where
  "quiet limit s = (case earliest (timers s) of None \<Rightarrow> True | Some x \<Rightarrow> limit < fst x)"

section \<open>Concrete inputs\<close>

text \<open>
  Small concrete states and inputs on which the functions above are run: an empty
  world, the row that \<open>saveTweetToDb\<close> writes for \<open>helloGeneration\<close>, the same row once
  approved, a row whose \<open>homeTimeline\<close> is an array, pass environments, a timeline item whose four
  actions are all decided, and a scheduler at time 0 with the interval set to 30 minutes.
\<close>

definition emptyWorld :: world where
  "emptyWorld = \<lparr>tweets = [], memories = [], sends = [], adminLogs = [], isProcessing = False\<rparr>"

definition savedPost :: DBTweet where
  "savedPost =
     \<lparr>tweetId = ''p1'', content = ''Hello world.'', scheduledFor = 4681000,
       status = ''pending'', newTweetContent = ''Hello world.'', mediaUrl = None,
       homeTimeline = TimelineText ''[]'', createdAt = 1000, error = None\<rparr>"

definition approvedPost :: DBTweet where
  "approvedPost = savedPost\<lparr>status := ''approved''\<rparr>"

definition storeWithApproved :: world where
  "storeWithApproved = emptyWorld\<lparr>tweets := [approvedPost]\<rparr>"

definition arrayPost :: DBTweet where
  "arrayPost = approvedPost\<lparr>homeTimeline := TimelineArray []\<rparr>"

definition storeWithArrayPost :: world where
  "storeWithArrayPost = emptyWorld\<lparr>tweets := [arrayPost]\<rparr>"

definition deliveredPass :: dispatch_env where
  "deliveredPass =
     \<lparr>imageFails = False, sendResponse = Delivered ''900'', afterSendFails = False\<rparr>"

definition badBodyPass :: dispatch_env where
  "badBodyPass = \<lparr>imageFails = False, sendResponse = BadBody, afterSendFails = False\<rparr>"

definition helloGeneration :: gen_env where
  "helloGeneration =
     \<lparr>llmAnswer = LlmText ''Hello world.'', genMediaUrl = None, genDryRun = False,
       freshId = ''p1'', clock = 1000, random = 1 / 2, intervalMin = None,
       intervalMax = None, genResponse = Delivered ''900'', genAfterSendFails = False\<rparr>"

definition allActions :: actionResponse where
  "allActions = \<lparr>like = True, retweet = True, quote = True, reply = True\<rparr>"

definition likeAndRetweet :: actionResponse where
  "likeAndRetweet = \<lparr>like = True, retweet = True, quote = False, reply = False\<rparr>"

definition itemOne :: timeline_item where
  "itemOne =
     \<lparr>itemId = ''t1'', itemText = ''gm'', classification = Returned (Some allActions),
       likeFails = False, retweetFails = False,
       quoteAnswer = LlmText ''wow'', quoteResponse = Delivered ''q1'',
       replyAnswer = LlmText ''nice'', replyResponse = Delivered ''r1'',
       recordFails = False\<rparr>"

definition itemTwo :: timeline_item where
  "itemTwo = itemOne\<lparr>itemId := ''t2''\<rparr>"

definition freshScheduler :: scheduler where
  "freshScheduler =
     \<lparr>nowMs = 0, timers = [], tweetInterval = Some 30, settingsFail = False,
       generated = 0, approvedChecks = 0, actionPasses = 0,
       stopProcessingActions = False\<rparr>"

definition plainStart :: start_config where
  "plainStart =
     \<lparr>postImmediatelyArg = False, POST_IMMEDIATELY = None,
       ENABLE_ACTION_PROCESSING = False, ACTION_INTERVAL = None,
       passOutcome = (\<lambda>n. PassResults)\<rparr>"

text \<open>
  The answer of the language model in the fenced example: a line with three back-ticks
  and \<open>json\<close>, the object with the text member \<open>Hello\nWorld\<close> (backslash and \<open>n\<close> as two
  characters), and a line with three back-ticks.
\<close>

definition fencedAnswer :: string where
  "fencedAnswer =
     ''```json'' @ [CHR 0x0A]
       @ ''{'' @ [CHR 0x22] @ ''text'' @ [CHR 0x22] @ '':''
       @ [CHR 0x22] @ ''Hello'' @ [CHR 0x5C] @ ''nWorld'' @ [CHR 0x22] @ ''}''
       @ [CHR 0x0A] @ ''```''"

section \<open>Predicates used in the statements\<close>

text \<open>
  \<open>postIsQueued\<close> holds of a recorded call unless it creates a post (\<open>sendTweet\<close>,
  \<open>sendQuoteTweet\<close>) outside the request queue. \<open>isGenerationTimer\<close> singles out the
  pending timers of the generation loop.
\<close>

fun postIsQueued :: "net_event \<Rightarrow> bool" where
  "postIsQueued (Queued c) = True"
| "postIsQueued (Direct (SendTweet t r m)) = False"
| "postIsQueued (Direct (SendQuoteTweet t i)) = False"
| "postIsQueued (Direct (LikeTweet i)) = True"
| "postIsQueued (Direct (Retweet i)) = True"

definition isGenerationTimer :: "int \<times> task \<Rightarrow> bool" where
  "isGenerationTimer x = (snd x = GenerateTweetTimer)"

section \<open>Basic facts about the world\<close>

lemma sends_issue [simp]: "sends (issue e w) = sends w @ [e]"
  by (simp add: issue_def)

lemma tweets_issue [simp]: "tweets (issue e w) = tweets w"
  by (simp add: issue_def)

lemma memories_issue [simp]: "memories (issue e w) = memories w"
  by (simp add: issue_def)

lemma sends_createMemory [simp]: "sends (createMemory m w) = sends w"
  by (simp add: createMemory_def)

lemma sends_updateTweetStatus [simp]: "sends (updateTweetStatus i s err w) = sends w"
  by (simp add: updateTweetStatus_def)

lemma sends_saveLog [simp]: "sends (saveLog room w) = sends w"
  by (simp add: saveLog_def)

lemma getMemoryById_issue [simp]: "getMemoryById k (issue e w) = getMemoryById k w"
  by (simp add: getMemoryById_def)

lemma find_snoc_fresh:
  "find P xs = None \<Longrightarrow> P x \<Longrightarrow> find P (xs @ [x]) = Some x"
  by (induction xs) (auto split: if_splits)

lemma getMemoryById_createMemory:
  "getMemoryById (memKey m) w = None \<Longrightarrow> getMemoryById (memKey m) (createMemory m w) = Some m"
  by (simp add: getMemoryById_def createMemory_def find_snoc_fresh)

section \<open>Scheduling bound\<close>

text \<open>
  Rounding to the nearest double keeps a non-negative number non-negative and never
  carries a number past an integer below \<open>2^53\<close> that bounds it.
\<close>

lemma pow2_pos [simp]: "0 < pow2 e"
  by (simp add: pow2_def)

lemma pow2_nonneg [simp]: "0 \<le> pow2 e"
  by (simp add: pow2_def)

lemma pow2_powr: "pow2 e = 2 powr real_of_int e"
  by (simp add: pow2_def powr_real_of_int inverse_eq_divide)

lemma pow2_mono: "e \<le> f \<Longrightarrow> pow2 e \<le> pow2 f"
  by (simp add: pow2_powr)

lemma pow2_Suc: "pow2 (e + 1) = 2 * pow2 e"
  by (simp add: pow2_powr powr_add)

lemma expUp_spec:
  "pow2 e \<le> a \<Longrightarrow>
   e \<le> expUp n e a \<and> expUp n e a \<le> e + int n \<and> pow2 (expUp n e a) \<le> a
   \<and> (expUp n e a < e + int n \<longrightarrow> a < pow2 (expUp n e a + 1))"
proof (induction n arbitrary: e)
  case 0
  then show ?case by simp
next
  case (Suc n)
  show ?case
  proof (cases "a < pow2 (e + 1)")
    case True
    then show ?thesis using Suc.prems by simp
  next
    case False
    then have "pow2 (e + 1) \<le> a" by simp
    from Suc.IH [OF this] show ?thesis using False by auto
  qed
qed

lemma expDown_spec:
  "a < pow2 (e + 1) \<Longrightarrow>
   e - int n \<le> expDown n e a \<and> expDown n e a \<le> e \<and> a < pow2 (expDown n e a + 1)
   \<and> (e - int n < expDown n e a \<longrightarrow> pow2 (expDown n e a) \<le> a)"
proof (induction n arbitrary: e)
  case 0
  then show ?case by simp
next
  case (Suc n)
  show ?case
  proof (cases "pow2 e \<le> a")
    case True
    then show ?thesis using Suc.prems by simp
  next
    case False
    then have "a < pow2 (e - 1 + 1)" by simp
    from Suc.IH [OF this] show ?thesis using False by auto
  qed
qed

lemma exponentOf_lower: "- 1022 < exponentOf a \<Longrightarrow> pow2 (exponentOf a) \<le> a"
proof (cases "1 \<le> a")
  case True
  then have "pow2 0 \<le> a" by (simp add: pow2_def)
  from expUp_spec [OF this, of 1023] show ?thesis using True by (simp add: exponentOf_def)
next
  case False
  then have "a < pow2 (- 1 + 1)" by (simp add: pow2_def)
  from expDown_spec [OF this, of 1021] show "- 1022 < exponentOf a \<Longrightarrow> ?thesis"
    using False by (simp add: exponentOf_def)
qed

lemma exponentOf_range: "- 1022 \<le> exponentOf a \<and> exponentOf a \<le> 1023"
proof (cases "1 \<le> a")
  case True
  then have "pow2 0 \<le> a" by (simp add: pow2_def)
  from expUp_spec [OF this, of 1023] show ?thesis using True by (simp add: exponentOf_def)
next
  case False
  then have "a < pow2 (- 1 + 1)" by (simp add: pow2_def)
  from expDown_spec [OF this, of 1021] show ?thesis using False by (simp add: exponentOf_def)
qed

lemma roundHalfEven_nonneg: "0 \<le> r \<Longrightarrow> 0 \<le> roundHalfEven r"
  by (auto simp: roundHalfEven_def Let_def)

lemma roundHalfEven_le_int:
  assumes "r \<le> of_int N"
  shows "roundHalfEven r \<le> N"
proof -
  have fl: "\<lfloor>r\<rfloor> \<le> N" using assms by (simp add: floor_le_iff)
  show ?thesis
  proof (cases "\<lfloor>r\<rfloor> = N")
    case True
    then have "of_int N \<le> r" by (metis of_int_floor_le)
    then have "r - of_int \<lfloor>r\<rfloor> = 0" using assms True by simp
    then show ?thesis using True by (simp add: roundHalfEven_def Let_def)
  next
    case False
    then have "\<lfloor>r\<rfloor> + 1 \<le> N" using fl by simp
    then show ?thesis by (auto simp: roundHalfEven_def Let_def)
  qed
qed

lemma roundPositive_le_int:
  assumes pos: "0 < a" and le: "a \<le> of_int m" and small: "m < 2 ^ 53"
  shows "roundPositive a \<le> of_int m"
proof -
  let ?e = "exponentOf a"
  have e52: "?e \<le> 52"
  proof (rule ccontr)
    assume "\<not> ?e \<le> 52"
    then have big: "53 \<le> ?e" by simp
    then have "pow2 53 \<le> pow2 ?e" by (rule pow2_mono)
    moreover have "pow2 ?e \<le> a" using big by (intro exponentOf_lower) simp
    moreover have "pow2 53 = 2 ^ 53" by (simp add: pow2_def)
    ultimately have "(2::real) ^ 53 \<le> of_int m" using le by simp
    moreover have "real_of_int m < 2 ^ 53" using small by (metis of_int_less_numeral_power_cancel_iff)
    ultimately show False by simp
  qed
  let ?k = "nat (52 - ?e)"
  let ?u = "pow2 (?e - 52)"
  have u: "?u = 1 / 2 ^ ?k"
  proof (cases "?e = 52")
    case True
    then show ?thesis by (simp add: pow2_def)
  next
    case False
    then have "?e - 52 < 0" using e52 by simp
    moreover have "nat (- (?e - 52)) = ?k" by simp
    ultimately show ?thesis by (simp add: pow2_def)
  qed
  have upos: "0 \<le> ?u" using pow2_pos [of "?e - 52"] by (rule less_imp_le)
  have "a / ?u \<le> of_int m / ?u" using le upos by (rule divide_right_mono)
  also have "of_int m / ?u = of_int (m * 2 ^ ?k)" using u by simp
  finally have "roundHalfEven (a / ?u) \<le> m * 2 ^ ?k" by (rule roundHalfEven_le_int)
  then have "real_of_int (roundHalfEven (a / ?u)) \<le> real_of_int (m * 2 ^ ?k)" by linarith
  then have "?u * real_of_int (roundHalfEven (a / ?u)) \<le> ?u * real_of_int (m * 2 ^ ?k)"
    using upos by (rule mult_left_mono)
  also have "?u * real_of_int (m * 2 ^ ?k) = of_int m" using u by simp
  finally show ?thesis by (simp add: roundPositive_def Let_def)
qed

lemma roundPositive_nonneg:
  assumes "0 < a"
  shows "0 \<le> roundPositive a"
proof -
  let ?u = "pow2 (exponentOf a - 52)"
  have u: "0 < ?u" by (rule pow2_pos)
  then have "0 \<le> a / ?u" using assms by simp
  then have "0 \<le> roundHalfEven (a / ?u)" by (rule roundHalfEven_nonneg)
  then have "0 \<le> ?u * real_of_int (roundHalfEven (a / ?u))" using u by simp
  then show ?thesis by (simp add: roundPositive_def Let_def)
qed

lemma roundDouble_nonneg: "0 \<le> x \<Longrightarrow> 0 \<le> roundDouble x"
  by (simp add: roundDouble_def roundPositive_nonneg)

lemma roundDouble_le_int:
  "0 \<le> x \<Longrightarrow> x \<le> of_int m \<Longrightarrow> m < 2 ^ 53 \<Longrightarrow> roundDouble x \<le> of_int m"
  by (cases "x = 0") (auto simp: roundDouble_def roundPositive_le_int)

lemma randomMinutes_default_bounds:
  assumes "0 \<le> rnd" and "rnd < 1"
  shows "12 \<le> randomMinutes rnd 12 24 \<and> randomMinutes rnd 12 24 \<le> 144"
proof -
  have lo: "0 \<le> rnd * 132" using assms(1) by simp
  have hi: "rnd * 132 \<le> of_int 132" using assms(2) by simp
  have "0 \<le> roundDouble (rnd * 132)" using lo by (rule roundDouble_nonneg)
  then have a: "0 \<le> \<lfloor>roundDouble (rnd * 132)\<rfloor>" by simp
  have "roundDouble (rnd * 132) \<le> of_int 132"
    using lo hi by (rule roundDouble_le_int) simp
  then have b: "\<lfloor>roundDouble (rnd * 132)\<rfloor> \<le> 132" by (simp add: floor_le_iff)
  show ?thesis using a b by (simp add: randomMinutes_def)
qed

text \<open>
  The rounding is visible: at \<open>Math.random() = 1228254443828317 / 2^52\<close> the exact product
  lies just below 36 and the double product is 36, so the result is 48 minutes.
\<close>

lemma randomMinutes_product_rounds_up:
  "randomMinutes (1228254443828317 / 2 ^ 52) 12 24 = 48
   \<and> \<lfloor>(1228254443828317 / 2 ^ 52) * (132 :: real)\<rfloor> + 12 = (47 :: int)"
  by code_simp

text \<open>
  C8. With the default settings (minMinutes = 12, maxMinutes = 24), whatever value in
  \<open>[0, 1)\<close> the random source returns, the date produced by \<open>randomFutureDate\<close> lies
  between the reference last-post time plus 12 minutes and the reference last-post time
  plus 144 minutes.
\<close>

theorem randomFutureDate_default_window:
  assumes "0 \<le> rnd" and "rnd < 1"
    and "parseIntOr smin 12 = 12" and "parseIntOr smax 24 = 24"
  shows "lastPostTimestamp lastPost now + 12 * 60 * 1000
           \<le> randomFutureDate lastPost now smin smax rnd
         \<and> randomFutureDate lastPost now smin smax rnd
           \<le> lastPostTimestamp lastPost now + 144 * 60 * 1000"
  using randomMinutes_default_bounds [OF assms(1,2)] assms(3,4)
  by (simp add: randomFutureDate_def)

theorem randomFutureDate_default_window_witness:
  "lastPostTimestamp [Some 1000] 5000 + 12 * 60 * 1000
     \<le> randomFutureDate [Some 1000] 5000 None None (1228254443828317 / 2 ^ 52)
   \<and> randomFutureDate [Some 1000] 5000 None None (1228254443828317 / 2 ^ 52)
     \<le> lastPostTimestamp [Some 1000] 5000 + 144 * 60 * 1000"
  using randomFutureDate_default_window
          [of "1228254443828317 / 2 ^ 52" None None "[Some 1000]" 5000]
  by (simp add: parseIntOr_def)

section \<open>Truncation at a sentence or word boundary\<close>

text \<open>
  \<open>lastIndexOf\<close> with a position: absent, or found at the last occurrence up to the
  position.
\<close>

lemma scanLast_absent: "c \<notin> set xs \<Longrightarrow> scanLast c xs i found = found"
  by (induction xs arbitrary: i found) auto

lemma scanLast_append:
  "scanLast c (xs @ ys) i found = scanLast c ys (i + length xs) (scanLast c xs i found)"
  by (induction xs arbitrary: i found) auto

lemma scanLast_last:
  "c \<notin> set zs \<Longrightarrow> scanLast c (ys @ c # zs) i found = int (i + length ys)"
  by (simp add: scanLast_append scanLast_absent)

lemma lastIndexOfFrom_absent:
  assumes "\<And>k. k \<le> nat (max position 0) \<Longrightarrow> k < length s \<Longrightarrow> s ! k \<noteq> c"
  shows "lastIndexOfFrom c s position = - 1"
proof -
  have "c \<notin> set (take (nat (max position 0) + 1) s)"
    using assms by (auto simp: in_set_conv_nth)
  then show ?thesis by (simp add: lastIndexOfFrom_def scanLast_absent)
qed

lemma scanLast_take_found:
  assumes p: "p \<le> n" "p < length s" "s ! p = c"
    and later: "\<And>k. p < k \<Longrightarrow> k \<le> n \<Longrightarrow> k < length s \<Longrightarrow> s ! k \<noteq> c"
  shows "scanLast c (take (n + 1) s) 0 (- 1) = int p"
proof -
  let ?t = "take (n + 1) s"
  have len: "p < length ?t" using p by simp
  have split: "?t = take p ?t @ ?t ! p # drop (Suc p) ?t"
    using len by (rule id_take_nth_drop)
  have at: "?t ! p = c" using p by simp
  have "c \<notin> set (drop (Suc p) ?t)"
  proof
    assume "c \<in> set (drop (Suc p) ?t)"
    then obtain j where j: "j < length (drop (Suc p) ?t)" "drop (Suc p) ?t ! j = c"
      unfolding in_set_conv_nth by blast
    have k: "Suc p + j < length ?t" using j(1) by (simp add: min_def split: if_splits)
    then have "Suc p + j \<le> n" "Suc p + j < length s" by (simp_all add: min_def split: if_splits)
    moreover have "s ! (Suc p + j) = c" using j k by simp
    ultimately show False using later [of "Suc p + j"] by simp
  qed
  then have "scanLast c (take p ?t @ c # drop (Suc p) ?t) 0 (- 1) = int (0 + length (take p ?t))"
    by (rule scanLast_last)
  moreover have "length (take p ?t) = p" using len by simp
  ultimately show ?thesis using split at by simp
qed

lemma lastIndexOfFrom_found:
  assumes "p \<le> nat (max position 0)" "p < length s" "s ! p = c"
    and "\<And>k. p < k \<Longrightarrow> k \<le> nat (max position 0) \<Longrightarrow> k < length s \<Longrightarrow> s ! k \<noteq> c"
  shows "lastIndexOfFrom c s position = int p"
  unfolding lastIndexOfFrom_def using assms by (rule scanLast_take_found)

lemma trim_keeps_content:
  assumes "s \<noteq> []" and "\<not> isWhiteSpace (last s)"
  shows "trim s \<noteq> []" and "last (trim s) = last s"
proof -
  let ?t = "dropWhile isWhiteSpace s"
  have mem: "last s \<in> set s" using assms(1) by simp
  have t: "?t \<noteq> []" using assms(2) mem by (auto simp: dropWhile_eq_Nil_conv)
  have "\<exists>ys. s = ys @ ?t" by (metis takeWhile_dropWhile_id)
  then have lt: "last ?t = last s" using t by (metis last_appendR)
  then have "\<not> isWhiteSpace (hd (rev ?t))" using assms(2) t by (simp add: hd_rev)
  then have "dropWhile isWhiteSpace (rev ?t) = rev ?t"
    using t by (cases "rev ?t") auto
  then have "trim s = ?t" by (simp add: trim_def trimEnd_def trimStart_def)
  then show "trim s \<noteq> []" and "last (trim s) = last s" using t lt by simp_all
qed

lemma trim_clean:
  assumes "s \<noteq> []" and "\<not> isWhiteSpace (hd s)" and "\<not> isWhiteSpace (last s)"
  shows "trim s = s"
proof -
  have "dropWhile isWhiteSpace s = s" using assms(1,2) by (cases s) auto
  moreover have "dropWhile isWhiteSpace (rev s) = rev s"
    using assms(1,3) by (cases "rev s") (auto simp: hd_rev [symmetric])
  ultimately show ?thesis by (simp add: trim_def trimEnd_def trimStart_def)
qed


lemma slice0_zero [simp]: "slice0 s 0 = []"
  by (simp add: slice0_def)

lemma slice0_prefix: "n \<le> length s \<Longrightarrow> slice0 s (int n) = take n s"
  by (simp add: slice0_def Let_def min_def)

lemma slice0_minus_one: "slice0 s (- 1) = butlast s"
  by (cases s rule: rev_cases) (simp_all add: slice0_def Let_def)

lemma trim_Nil [simp]: "trim [] = []"
  by (simp add: trim_def trimEnd_def trimStart_def)

lemma period_not_space [simp]: "\<not> isWhiteSpace (CHR ''.'')"
  by (simp add: isWhiteSpace_def)

lemma truncate_at_period:
  assumes long: "limit < int (length text)"
    and p: "int p \<le> limit" and at: "text ! p = CHR ''.''"
    and later: "\<And>k. p < k \<Longrightarrow> int k \<le> limit \<Longrightarrow> text ! k \<noteq> CHR ''.''"
  shows "truncateToCompleteSentence text limit = trim (take (Suc p) text)
         \<and> last (truncateToCompleteSentence text limit) = CHR ''.''"
proof -
  have plen: "p < length text" using long p by linarith
  have pn: "p \<le> nat (max limit 0)" using p by linarith
  have "lastIndexOfFrom (CHR ''.'') text limit = int p"
  proof (rule lastIndexOfFrom_found [OF pn plen at])
    fix k assume "p < k" "k \<le> nat (max limit 0)" "k < length text"
    then show "text ! k \<noteq> CHR ''.''" using later [of k] by linarith
  qed
  then have cut: "slice0 text (lastIndexOfFrom (CHR ''.'') text limit + 1) = take (Suc p) text"
    using slice0_prefix [of "Suc p" "text"] plen by (simp add: add.commute)
  have ne: "take (Suc p) text \<noteq> []" using plen by (cases "text") auto
  have lst: "last (take (Suc p) text) = CHR ''.''"
    using plen at by (simp add: take_Suc_conv_app_nth)
  have "trim (take (Suc p) text) \<noteq> []" "last (trim (take (Suc p) text)) = CHR ''.''"
    using trim_keeps_content [OF ne] lst by simp_all
  then show ?thesis
    using long cut by (simp add: truncateToCompleteSentence_def Let_def)
qed

lemma truncate_at_space:
  assumes long: "limit < int (length text)"
    and plain: "\<And>k. int k \<le> limit \<Longrightarrow> text ! k \<noteq> CHR ''.''"
    and p: "int p \<le> limit" and at: "text ! p = CHR '' ''"
    and later: "\<And>k. p < k \<Longrightarrow> int k \<le> limit \<Longrightarrow> text ! k \<noteq> CHR '' ''"
    and body: "trim (take p text) \<noteq> []"
  shows "truncateToCompleteSentence text limit = trim (take p text) @ ''...''"
proof -
  have plen: "p < length text" using long p by linarith
  have pn: "p \<le> nat (max limit 0)" using p by linarith
  have "lastIndexOfFrom (CHR ''.'') text limit = - 1"
  proof (rule lastIndexOfFrom_absent)
    fix k assume "k \<le> nat (max limit 0)" "k < length text"
    then show "text ! k \<noteq> CHR ''.''" using plain [of k] p by linarith
  qed
  moreover have "lastIndexOfFrom (CHR '' '') text limit = int p"
  proof (rule lastIndexOfFrom_found [OF pn plen at])
    fix k assume "p < k" "k \<le> nat (max limit 0)" "k < length text"
    then show "text ! k \<noteq> CHR '' ''" using later [of k] by linarith
  qed
  moreover have "slice0 text (int p) = take p text"
    using slice0_prefix [of p "text"] plen by simp
  ultimately show ?thesis
    using long body by (simp add: truncateToCompleteSentence_def Let_def ellipsis_def)
qed

lemma truncate_no_boundary:
  assumes long: "limit < int (length text)"
    and plain: "\<And>k. int k \<le> max limit 0 \<Longrightarrow> k < length text
                  \<Longrightarrow> text ! k \<noteq> CHR ''.'' \<and> text ! k \<noteq> CHR '' ''"
    and body: "trim (butlast text) \<noteq> []"
  shows "truncateToCompleteSentence text limit = trim (butlast text) @ ''...''"
proof -
  have "lastIndexOfFrom (CHR ''.'') text limit = - 1"
  proof (rule lastIndexOfFrom_absent)
    fix k assume "k \<le> nat (max limit 0)" "k < length text"
    then show "text ! k \<noteq> CHR ''.''" using plain [of k] by simp
  qed
  moreover have "lastIndexOfFrom (CHR '' '') text limit = - 1"
  proof (rule lastIndexOfFrom_absent)
    fix k assume "k \<le> nat (max limit 0)" "k < length text"
    then show "text ! k \<noteq> CHR '' ''" using plain [of k] by simp
  qed
  ultimately show ?thesis
    using long body
    by (simp add: truncateToCompleteSentence_def Let_def ellipsis_def slice0_minus_one)
qed

lemma truncate_period_at_50:
  assumes "length text = 300" and "text ! 50 = CHR ''.''"
    and "\<And>k. 50 < k \<Longrightarrow> k \<le> 100 \<Longrightarrow> text ! k \<noteq> CHR ''.''"
  shows "truncateToCompleteSentence text 100 = trim (take 51 text)
         \<and> last (truncateToCompleteSentence text 100) = CHR ''.''"
proof -
  have "truncateToCompleteSentence text 100 = trim (take (Suc 50) text)
        \<and> last (truncateToCompleteSentence text 100) = CHR ''.''"
  proof (rule truncate_at_period)
    show "100 < int (length text)" using assms(1) by simp
    show "int 50 \<le> 100" by simp
    show "text ! 50 = CHR ''.''" by (rule assms(2))
    show "text ! k \<noteq> CHR ''.''" if "50 < k" "int k \<le> 100" for k
      using that assms(3) [of k] by simp
  qed
  then show ?thesis by auto
qed

lemma truncate_space_at_90:
  assumes "length text = 300" and "text ! 90 = CHR '' ''"
    and "\<And>k. k \<le> 100 \<Longrightarrow> text ! k \<noteq> CHR ''.''"
    and "\<And>k. 90 < k \<Longrightarrow> k \<le> 100 \<Longrightarrow> text ! k \<noteq> CHR '' ''"
    and "\<not> isWhiteSpace (text ! 0)" and "\<not> isWhiteSpace (text ! 89)"
  shows "truncateToCompleteSentence text 100 = take 90 text @ ''...''"
proof -
  have ne: "take 90 text \<noteq> []" using assms(1) by (cases "text") auto
  have "hd (take 90 text) = text ! 0" using assms(1) ne by (simp add: hd_conv_nth)
  moreover have "last (take 90 text) = text ! 89"
    using assms(1) ne by (simp add: last_conv_nth)
  ultimately have "trim (take 90 text) = take 90 text"
    using trim_clean [OF ne] assms(5,6) by simp
  then show ?thesis
    using truncate_at_space [of 100 "text" 90] assms(1-4) ne by simp
qed

section \<open>The hard-truncation fallback\<close>

text \<open>
  C5. For a text of length 300 with neither a period nor a space and a limit of 100, the
  claim expects the first 97 characters followed by the ellipsis marker (100 characters
  in all). The source computes \<open>text.lastIndexOf(" ", 100) = -1\<close> and then
  \<open>text.slice(0, -1)\<close>, which is the text without its last character; that is not empty,
  so the word-boundary branch returns 299 characters followed by the marker and the
  fallback is never reached.
\<close>

theorem truncateToCompleteSentence_no_boundary_overlong:
  "truncateToCompleteSentence (replicate 300 (CHR ''a'')) 100
     = replicate 299 (CHR ''a'') @ ''...''
   \<and> length (truncateToCompleteSentence (replicate 300 (CHR ''a'')) 100) = 302
   \<and> truncateToCompleteSentence (replicate 300 (CHR ''a'')) 100
     \<noteq> replicate 97 (CHR ''a'') @ ''...''"
  by code_simp

section \<open>The fenced JSON answer\<close>

text \<open>
  C6. On the fenced answer the claim expects the text \<open>Hello\<close>, line feed, \<open>World\<close>. The
  source replaces the escaped line feed by a real one before it calls \<open>JSON.parse\<close>; a
  line feed inside a JSON string is a syntax error, the \<open>catch\<close> swallows it, and the
  whole cleaned object text is returned instead of its text member. Parsing the answer
  with only the fences removed does yield the expected member.
\<close>

theorem generateTweetContent_fenced_json_keeps_wrapper:
  "generateTweetContent (LlmText fencedAnswer)
     = GenText (''{'' @ [CHR 0x22] @ ''text'' @ [CHR 0x22] @ '':''
                @ [CHR 0x22] @ ''Hello'' @ [CHR 0x0A] @ ''World'' @ [CHR 0x22] @ ''}'')
   \<and> generateTweetContent (LlmText fencedAnswer)
       \<noteq> GenText (''Hello'' @ [CHR 0x0A] @ ''World'')
   \<and> JSON_parse (cleanResponse fencedAnswer) = Inl SyntaxError
   \<and> JSON_parse (trim (removeLiteralWs ''```'' (removeLiteralWs ''```json'' fencedAnswer)))
       = Inr (JObject [(''text'', JString (''Hello'' @ [CHR 0x0A] @ ''World''))])"
  by code_simp

section \<open>Dispatching an approved post twice\<close>

lemma alreadySent_issue [simp]: "alreadySent i (issue e w) = alreadySent i w"
  by (simp add: alreadySent_def getSentTweetById_def issue_def)

lemma alreadySent_createMemory [simp]: "alreadySent i (createMemory m w) = alreadySent i w"
  by (simp add: alreadySent_def getSentTweetById_def createMemory_def)

lemma sent_in_updated:
  "i \<in> set (map tweetId xs) \<Longrightarrow>
   ''sent'' \<in> set (map status (filter (\<lambda>t. tweetId t = i)
      (map (\<lambda>t. if tweetId t = i then t\<lparr>status := ''sent'', error := err\<rparr> else t) xs)))"
  by (induction xs) auto

lemma alreadySent_updateTweetStatus_sent:
  "i \<in> set (map tweetId (tweets w)) \<Longrightarrow> alreadySent i (updateTweetStatus i ''sent'' err w)"
  unfolding alreadySent_def getSentTweetById_def updateTweetStatus_def
  using sent_in_updated [of i "tweets w" err] by simp

lemma tweetIds_updateTweetStatus [simp]:
  "map tweetId (tweets (updateTweetStatus i s err w)) = map tweetId (tweets w)"
  by (simp add: updateTweetStatus_def comp_def cong: map_cong)

text \<open>A pass over a row that the store already holds as sent changes nothing.\<close>

lemma dispatch_alreadySent:
  "alreadySent (tweetId tweet) w \<Longrightarrow> snd (dispatch dryRun env tweet w) = w"
  by (simp add: dispatch_def)

lemma not_sent_in_updated:
  "s \<noteq> ''sent'' \<Longrightarrow>
   ''sent'' \<notin> set (map status (filter (\<lambda>t. tweetId t = i)
      (map (\<lambda>t. if tweetId t = i then t\<lparr>status := s, error := err\<rparr> else t) xs)))"
  by (induction xs) auto

lemma not_alreadySent_updateTweetStatus:
  "s \<noteq> ''sent'' \<Longrightarrow> \<not> alreadySent i (updateTweetStatus i s err w)"
  unfolding alreadySent_def getSentTweetById_def updateTweetStatus_def
  using not_sent_in_updated [of s i err "tweets w"] by simp

text \<open>
  Where the guard works. Outside a dry run, for a row that is in the store and not yet
  sent, whose media (if any) can be fetched: when the send is rejected by the queue, or
  is delivered for a row whose \<open>homeTimeline\<close> is an array and the collaborators after it
  succeed, the row stays \<open>"sent"\<close>, one send has been issued, and a second dispatch of
  the same row changes nothing.
\<close>

lemma dispatch_twice_array_row:
  assumes live: "\<not> dryRun"
    and img: "mediaUrl tweet = None \<or> \<not> imageFails env1"
    and stored: "tweetId tweet \<in> set (map tweetId (tweets w))"
    and fresh: "\<not> alreadySent (tweetId tweet) w"
    and kept: "sendResponse env1 = QueueRejects
               \<or> (\<exists>rid. sendResponse env1 = Delivered rid) \<and> \<not> afterSendFails env1
                 \<and> (\<exists>posts. homeTimeline tweet = TimelineArray posts)"
  shows "sends (snd (dispatch dryRun env1 tweet w))
           = sends w @ [Queued (SendTweet (content tweet) None (mediaUrl tweet \<noteq> None))]
         \<and> snd (dispatch dryRun env2 tweet (snd (dispatch dryRun env1 tweet w)))
           = snd (dispatch dryRun env1 tweet w)"
proof -
  let ?i = "tweetId tweet"
  let ?e = "Queued (SendTweet (content tweet) None (mediaUrl tweet \<noteq> None))"
  let ?w1 = "snd (dispatch dryRun env1 tweet w)"
  let ?claimed = "issue ?e (markTweetAsSent ?i w)"
  have stored': "?i \<in> set (map tweetId (tweets ?claimed))"
    using stored by (simp add: markTweetAsSent_def)
  have claimed: "alreadySent ?i ?claimed"
    using stored by (simp add: markTweetAsSent_def alreadySent_updateTweetStatus_sent)
  have "sends ?w1 = sends w @ [?e] \<and> alreadySent ?i ?w1"
    using kept
  proof
    assume r: "sendResponse env1 = QueueRejects"
    have "?w1 = ?claimed"
      using live img fresh r
      by (auto simp: dispatch_def sendTweetAndUpdateCache_def Let_def)
    then show ?thesis using claimed by (simp add: markTweetAsSent_def)
  next
    assume "(\<exists>rid. sendResponse env1 = Delivered rid) \<and> \<not> afterSendFails env1
            \<and> (\<exists>posts. homeTimeline tweet = TimelineArray posts)"
    then obtain rid posts where r: "sendResponse env1 = Delivered rid" "\<not> afterSendFails env1"
      "homeTimeline tweet = TimelineArray posts"
      by auto
    have "?w1 = createMemory \<lparr>memKey = rid, memText = trim (newTweetContent tweet),
                               memAction = None\<rparr>
                  (updateTweetStatus ?i ''sent'' None ?claimed)"
      using live img fresh r
      by (auto simp: dispatch_def sendTweetAndUpdateCache_def Let_def)
    then show ?thesis
      using stored' by (simp add: markTweetAsSent_def alreadySent_updateTweetStatus_sent)
  qed
  then show ?thesis using dispatch_alreadySent by simp
qed

text \<open>
  Where it does not. For a row whose \<open>homeTimeline\<close> is a string, as every row written
  by \<open>saveTweetToDb\<close> is, a delivered send is followed by the \<open>TypeError\<close> of
  \<open>homeTimeline.push\<close>; the \<open>catch\<close> of the loop marks the row as error, so the row is no
  longer \<open>"sent"\<close>, and a second dispatch issues the send again.
\<close>

lemma dispatch_delivered_text_row:
  assumes live: "\<not> dryRun"
    and img: "mediaUrl tweet = None"
    and fresh: "\<not> alreadySent (tweetId tweet) w"
    and str: "homeTimeline tweet = TimelineText s"
    and r: "sendResponse env1 = Delivered rid"
  shows "sends (snd (dispatch dryRun env1 tweet w))
           = sends w @ [Queued (SendTweet (content tweet) None False)]
         \<and> \<not> alreadySent (tweetId tweet) (snd (dispatch dryRun env1 tweet w))
         \<and> sends (snd (dispatch dryRun env2 tweet (snd (dispatch dryRun env1 tweet w))))
           = sends w @ [Queued (SendTweet (content tweet) None False),
                        Queued (SendTweet (content tweet) None False)]"
proof -
  let ?i = "tweetId tweet"
  let ?e = "Queued (SendTweet (content tweet) None False)"
  let ?w1 = "snd (dispatch dryRun env1 tweet w)"
  have w1: "?w1 = markTweetAsError ?i ''error''
                    (updateTweetStatus ?i ''sent'' None (issue ?e (markTweetAsSent ?i w)))"
    using live img fresh str r
    by (simp add: dispatch_def sendTweetAndUpdateCache_def Let_def)
  have s1: "sends ?w1 = sends w @ [?e]"
    unfolding w1 by (simp add: markTweetAsError_def markTweetAsSent_def)
  have open1: "\<not> alreadySent ?i ?w1"
    unfolding w1 markTweetAsError_def by (rule not_alreadySent_updateTweetStatus) simp
  have "sends (snd (dispatch dryRun env2 tweet ?w1)) = sends ?w1 @ [?e]"
    using live img open1
    by (cases "sendResponse env2"; cases "homeTimeline tweet")
       (simp_all add: dispatch_def sendTweetAndUpdateCache_def Let_def markTweetAsError_def
                      markTweetAsSent_def)
  then show ?thesis using s1 open1 by simp
qed

text \<open>
  Two gates that are there by design: in a dry run no dispatch sends anything, and a
  malformed response body sets the row to error, after which a dispatch sends again.
\<close>

lemma dispatch_dry_run_and_bad_body:
  "sends (snd (dispatch True deliveredPass arrayPost
                 (snd (dispatch True deliveredPass arrayPost storeWithArrayPost)))) = []
   \<and> sends (snd (dispatch False deliveredPass arrayPost
                   (snd (dispatch False badBodyPass arrayPost storeWithArrayPost))))
     = [Queued (SendTweet ''Hello world.'' None False),
        Queued (SendTweet ''Hello world.'' None False)]"
  by code_simp

text \<open>
  C2. The claim says that dispatching the same row twice gives exactly one network
  send, the second dispatch finding the row claimed. The row that \<open>saveTweetToDb\<close> writes
  carries its \<open>homeTimeline\<close> as a string. Once it is approved and its send is delivered,
  \<open>sendTweetAndUpdateCache\<close> sets it to \<open>"sent"\<close> and then throws at
  \<open>homeTimeline.push\<close>; the loop's \<open>catch\<close> marks the row as error. The first dispatch thus
  leaves the delivered row in state error, and the second dispatch, finding no
  \<open>"sent"\<close> row, posts the same text again.
\<close>

theorem dispatch_twice_saved_row_sends_twice:
  "tweets (saveTweetToDb helloGeneration ''Hello world.'' ''Hello world.'' emptyWorld)
     = [savedPost]
   \<and> updateTweetStatus ''p1'' ''approved'' None (emptyWorld\<lparr>tweets := [savedPost]\<rparr>)
     = storeWithApproved
   \<and> sends (snd (dispatch False deliveredPass approvedPost storeWithApproved))
     = [Queued (SendTweet ''Hello world.'' None False)]
   \<and> map status (tweets (snd (dispatch False deliveredPass approvedPost storeWithApproved)))
     = [''error'']
   \<and> sends (snd (dispatch False deliveredPass approvedPost
                   (snd (dispatch False deliveredPass approvedPost storeWithApproved))))
     = [Queued (SendTweet ''Hello world.'' None False),
        Queued (SendTweet ''Hello world.'' None False)]"
  by code_simp

section \<open>Generation and approval\<close>

text \<open>
  Whenever the answer yields content and the run is not a dry run, \<open>generateNewTweet\<close>
  issues one send and leaves the new row pending.
\<close>

lemma generateNewTweet_sends_when_content:
  assumes "llmAnswer env = LlmText answer" and "firstClean answer = Some cleaned"
    and "cleaned \<noteq> []" and "\<not> genDryRun env"
  shows "sends (snd (generateNewTweet env w))
           = sends w @ [Queued (SendTweet
                          (removeQuotes (unescapeNewlines
                             (truncateToCompleteSentence cleaned MAX_TWEET_LENGTH)))
                          None False)]
         \<and> map status (tweets (snd (generateNewTweet env w)))
           = map status (tweets w) @ [''pending'']"
  using assms
  by (cases "genResponse env")
     (simp_all add: generateNewTweet_def Let_def saveTweetToDb_def saveTweetObject_def
                    issue_def createMemory_def)

text \<open>
  C1. The claim says that \<open>generateNewTweet\<close> sends nothing itself. On the answer
  \<open>Hello world.\<close>, outside a dry run, the source saves the row as \<open>"pending"\<close> and then
  hands \<open>sendTweet\<close> for the same text to the request queue at once: the post goes out
  while its row is still pending, before any approval.
\<close>

theorem generateNewTweet_sends_before_approval:
  "fst (generateNewTweet helloGeneration emptyWorld) = GSaved ''p1''
   \<and> sends (snd (generateNewTweet helloGeneration emptyWorld))
       = [Queued (SendTweet ''Hello world.'' None False)]
   \<and> map tweetId (tweets (snd (generateNewTweet helloGeneration emptyWorld))) = [''p1'']
   \<and> map status (tweets (snd (generateNewTweet helloGeneration emptyWorld))) = [''pending'']"
  by code_simp

section \<open>Actions on the timeline\<close>

text \<open>
  When the reply's content generation throws, the like and the retweet decided for the
  same item have been issued, the completion record is written, and it lists the executed
  actions without the reply. When the quote's content comes back empty, the item ends the
  pass and no record is written.
\<close>

lemma processItem_reply_throws:
  assumes fresh: "getMemoryById (itemId item) w = None"
    and decided: "classification item = Returned (Some actions)"
    and noquote: "\<not> quote actions"
    and rep: "reply actions" "replyAnswer item = LlmThrows"
    and rec: "\<not> recordFails item"
    and ex: "ex = (if like actions \<and> \<not> likeFails item then [''like''] else [])
                  @ (if retweet actions \<and> \<not> retweetFails item then [''retweet''] else [])"
  shows "\<exists>w'. processItem item w = (ItemDone actions ex, w')
         \<and> getMemoryById (itemId item) w'
           = Some \<lparr>memKey = itemId item, memText = itemText item,
                    memAction = Some (joinComma ex)\<rparr>"
proof -
  let ?m = "\<lparr>memKey = itemId item, memText = itemText item, memAction = Some (joinComma ex)\<rparr>"
  let ?w1 = "if like actions then issue (Direct (LikeTweet (itemId item))) w else w"
  let ?w2 = "if retweet actions then issue (Direct (Retweet (itemId item))) ?w1 else ?w1"
  have run: "processItem item w = (ItemDone actions ex, createMemory ?m ?w2)"
    using fresh decided noquote rep rec ex
    by (cases "like actions"; cases "retweet actions"; cases "likeFails item";
        cases "retweetFails item")
       (simp_all add: processItem_def likeAction_def retweetAction_def
                      handleTextOnlyReply_def generateTweetContent_def Let_def)
  have m2: "getMemoryById (itemId item) ?w2 = None"
    using fresh by simp
  have "getMemoryById (itemId item) (createMemory ?m ?w2) = Some ?m"
    using getMemoryById_createMemory [of ?m ?w2] m2 by simp
  then show ?thesis using run by simp
qed

text \<open>
  The same holds when a quote is decided as well, as long as the quote block goes on to
  the reply (its content generation throws or yields a non-empty text).
\<close>

lemma quoteAction_proceeds:
  assumes "generateTweetContent (quoteAnswer item) = GenThrows
           \<or> (\<exists>q. q \<noteq> [] \<and> generateTweetContent (quoteAnswer item) = GenText q)"
  shows "\<exists>ex' w'. quoteAction item ex w = (Proceed, ex', w')
           \<and> set ex \<subseteq> set ex' \<and> set ex' \<subseteq> set ex \<union> {''quote''}
           \<and> getMemoryById k w' = getMemoryById k w"
  using assms
  by (auto simp: quoteAction_def Let_def split: response.splits)

lemma processItem_reply_throws_any_quote:
  assumes fresh: "getMemoryById (itemId item) w = None"
    and decided: "classification item = Returned (Some actions)"
    and quoteOk: "quote actions \<longrightarrow>
                    generateTweetContent (quoteAnswer item) = GenThrows
                    \<or> (\<exists>q. q \<noteq> [] \<and> generateTweetContent (quoteAnswer item) = GenText q)"
    and rep: "reply actions" "replyAnswer item = LlmThrows"
    and rec: "\<not> recordFails item"
  shows "\<exists>ex w'. processItem item w = (ItemDone actions ex, w')
           \<and> ''reply'' \<notin> set ex
           \<and> (like actions \<and> \<not> likeFails item \<longrightarrow> ''like'' \<in> set ex)
           \<and> (retweet actions \<and> \<not> retweetFails item \<longrightarrow> ''retweet'' \<in> set ex)
           \<and> getMemoryById (itemId item) w'
             = Some \<lparr>memKey = itemId item, memText = itemText item,
                      memAction = Some (joinComma ex)\<rparr>"
proof -
  let ?w1 = "if like actions then issue (Direct (LikeTweet (itemId item))) w else w"
  let ?w2 = "if retweet actions then issue (Direct (Retweet (itemId item))) ?w1 else ?w1"
  let ?ex2 = "(if like actions \<and> \<not> likeFails item then [''like''] else [])
              @ (if retweet actions \<and> \<not> retweetFails item then [''retweet''] else [])"
  have s1: "(if like actions then likeAction item [] w else ([], w))
              = ((if like actions \<and> \<not> likeFails item then [''like''] else []), ?w1)"
    by (simp add: likeAction_def Let_def)
  have s2: "(if retweet actions
             then retweetAction item (if like actions \<and> \<not> likeFails item then [''like''] else []) ?w1
             else ((if like actions \<and> \<not> likeFails item then [''like''] else []), ?w1))
              = (?ex2, ?w2)"
    by (simp add: retweetAction_def Let_def)
  have m2: "getMemoryById (itemId item) ?w2 = None" using fresh by simp
  obtain ex3 w3 where s3:
      "(if quote actions then quoteAction item ?ex2 ?w2 else (Proceed, ?ex2, ?w2))
         = (Proceed, ex3, w3)"
    and sub: "set ?ex2 \<subseteq> set ex3" "set ex3 \<subseteq> set ?ex2 \<union> {''quote''}"
    and m3: "getMemoryById (itemId item) w3 = None"
  proof (cases "quote actions")
    case True
    then have "generateTweetContent (quoteAnswer item) = GenThrows
               \<or> (\<exists>q. q \<noteq> [] \<and> generateTweetContent (quoteAnswer item) = GenText q)"
      using quoteOk by simp
    from quoteAction_proceeds [OF this, of ?ex2 ?w2 "itemId item"]
    obtain ex' w' where "quoteAction item ?ex2 ?w2 = (Proceed, ex', w')"
      "set ?ex2 \<subseteq> set ex'" "set ex' \<subseteq> set ?ex2 \<union> {''quote''}"
      "getMemoryById (itemId item) w' = getMemoryById (itemId item) ?w2"
      by blast
    then show ?thesis using that [of ex' w'] True m2 by simp
  next
    case False
    have "set ?ex2 \<subseteq> set ?ex2 \<union> {''quote''}" by (rule Un_upper1)
    then show ?thesis using that [of ?ex2 ?w2] m2 False by auto
  qed
  let ?m = "\<lparr>memKey = itemId item, memText = itemText item, memAction = Some (joinComma ex3)\<rparr>"
  have run: "processItem item w = (ItemDone actions ex3, createMemory ?m w3)"
    using fresh decided rep rec s1 s2 s3
    by (simp add: processItem_def handleTextOnlyReply_def generateTweetContent_def)
  have mem: "getMemoryById (itemId item) (createMemory ?m w3) = Some ?m"
    using getMemoryById_createMemory [of ?m w3] m3 by simp
  have noreply: "''reply'' \<notin> set ex3" using sub(2) by auto
  have l: "like actions \<and> \<not> likeFails item \<longrightarrow> ''like'' \<in> set ex3" using sub(1) by auto
  have r: "retweet actions \<and> \<not> retweetFails item \<longrightarrow> ''retweet'' \<in> set ex3"
    using sub(1) by auto
  show ?thesis using run mem noreply l r by blast
qed

lemma processItem_empty_quote:
  assumes fresh: "getMemoryById (itemId item) w = None"
    and decided: "classification item = Returned (Some actions)"
    and q: "quote actions" "generateTweetContent (quoteAnswer item) = GenText []"
  shows "fst (processItem item w) = ItemReturn
         \<and> memories (snd (processItem item w)) = memories w"
  using assms
  by (simp add: processItem_def quoteAction_def likeAction_def retweetAction_def Let_def
           split: prod.splits)

lemma processTimeline_empty_quote:
  assumes "getMemoryById (itemId item) w = None"
    and "classification item = Returned (Some actions)"
    and "quote actions" "generateTweetContent (quoteAnswer item) = GenText []"
  shows "fst (processTimeline (item # rest) results w) = ReturnedUndefined
         \<and> memories (snd (processTimeline (item # rest) results w)) = memories w"
  using processItem_empty_quote [OF assms]
  by (cases "processItem item w") simp

text \<open>
  C3. The claim says that an action whose content generation yields nothing usable is
  abandoned alone. When the language model answers the quote request with an empty text,
  \<open>generateTweetContent\<close> returns the empty string and the quote block executes
  \<open>return\<close>, which ends \<open>processTweetActions\<close>: the reply of the same item is not
  attempted, no completion record is written for it, the next item is not looked at, and
  the function returns \<open>undefined\<close>. (The like and the retweet, which come first, have
  been issued.)
\<close>

theorem processTweetActions_empty_quote_ends_pass:
  "generateTweetContent (LlmText []) = GenText []
   \<and> processTweetActions (Some [itemOne\<lparr>quoteAnswer := LlmText []\<rparr>, itemTwo]) emptyWorld
     = (ReturnedUndefined,
        emptyWorld\<lparr>sends := [Direct (LikeTweet ''t1''), Direct (Retweet ''t1'')]\<rparr>)"
  by code_simp

text \<open>
  Calls that create a post are never made outside the request queue, in any of the
  three loops.
\<close>

lemma posts_queued_likeAction:
  "list_all postIsQueued (sends w) \<Longrightarrow> list_all postIsQueued (sends (snd (likeAction item ex w)))"
  by (simp add: likeAction_def Let_def)

lemma posts_queued_retweetAction:
  "list_all postIsQueued (sends w)
   \<Longrightarrow> list_all postIsQueued (sends (snd (retweetAction item ex w)))"
  by (simp add: retweetAction_def Let_def)

lemma posts_queued_quoteAction:
  "list_all postIsQueued (sends w)
   \<Longrightarrow> list_all postIsQueued (sends (snd (snd (quoteAction item ex w))))"
  by (simp add: quoteAction_def Let_def split: generated.splits response.splits)

lemma posts_queued_handleTextOnlyReply:
  "list_all postIsQueued (sends w) \<Longrightarrow> handleTextOnlyReply item ex w = Some (ex', w')
   \<Longrightarrow> list_all postIsQueued (sends w')"
  by (auto simp: handleTextOnlyReply_def Let_def
           split: generated.splits response.splits if_splits)

lemma posts_queued_processItem:
  assumes q: "list_all postIsQueued (sends w)"
  shows "list_all postIsQueued (sends (snd (processItem item w)))"
proof (cases "getMemoryById (itemId item) w \<noteq> None")
  case True
  then show ?thesis using q by (simp add: processItem_def)
next
  case False
  show ?thesis
  proof (cases "classification item")
    case Thrown
    then show ?thesis using q False by (simp add: processItem_def)
  next
    case (Returned d)
    show ?thesis
    proof (cases d)
      case None
      then show ?thesis using q False Returned by (simp add: processItem_def)
    next
      case (Some actions)
      obtain ex1 w1 where s1:
        "(if like actions then likeAction item [] w else ([], w)) = (ex1, w1)"
        by (cases "if like actions then likeAction item [] w else ([], w)")
      have q1: "list_all postIsQueued (sends w1)"
        using q s1 posts_queued_likeAction [OF q, of item "[]"]
        by (auto split: if_splits)
      obtain ex2 w2 where s2:
        "(if retweet actions then retweetAction item ex1 w1 else (ex1, w1)) = (ex2, w2)"
        by (cases "if retweet actions then retweetAction item ex1 w1 else (ex1, w1)")
      have q2: "list_all postIsQueued (sends w2)"
        using q1 s2 posts_queued_retweetAction [OF q1, of item ex1]
        by (auto split: if_splits)
      obtain sig ex3 w3 where s3:
        "(if quote actions then quoteAction item ex2 w2 else (Proceed, ex2, w2)) = (sig, ex3, w3)"
        by (cases "if quote actions then quoteAction item ex2 w2 else (Proceed, ex2, w2)")
      have q3: "list_all postIsQueued (sends w3)"
        using q2 s3 posts_queued_quoteAction [OF q2, of item ex2]
        by (auto split: if_splits)
      have unfold: "processItem item w =
          (case sig of
             ReturnNow \<Rightarrow> (ItemReturn, w3)
           | OutsideModel \<Rightarrow> (ItemUnmodelled, w3)
           | Proceed \<Rightarrow>
               (case (if reply actions then handleTextOnlyReply item ex3 w3 else Some (ex3, w3)) of
                  None \<Rightarrow> (ItemUnmodelled, w3)
                | Some (ex4, w4) \<Rightarrow>
                    if recordFails item then (ItemFailed, w4)
                    else (ItemDone actions ex4,
                          createMemory \<lparr>memKey = itemId item, memText = itemText item,
                                        memAction = Some (joinComma ex4)\<rparr> w4)))"
        using False Returned Some s1 s2 s3 by (simp add: processItem_def)
      show ?thesis
      proof (cases sig)
        case Proceed
        show ?thesis
        proof (cases "if reply actions then handleTextOnlyReply item ex3 w3 else Some (ex3, w3)")
          case None
          then show ?thesis using unfold Proceed q3 by simp
        next
          case (Some r)
          obtain ex4 w4 where r: "r = (ex4, w4)" by (cases r)
          have "list_all postIsQueued (sends w4)"
            using Some r q3 posts_queued_handleTextOnlyReply [OF q3, of item ex3 ex4 w4]
            by (auto split: if_splits)
          then show ?thesis using unfold Proceed Some r by simp
        qed
      next
        case ReturnNow
        then show ?thesis using unfold q3 by simp
      next
        case OutsideModel
        then show ?thesis using unfold q3 by simp
      qed
    qed
  qed
qed

lemma posts_queued_processTimeline:
  "list_all postIsQueued (sends w)
   \<Longrightarrow> list_all postIsQueued (sends (snd (processTimeline items results w)))"
proof (induction items arbitrary: results w)
  case Nil
  then show ?case by simp
next
  case (Cons item rest)
  obtain r w' where step: "processItem item w = (r, w')" by (cases "processItem item w")
  have "list_all postIsQueued (sends w')"
    using posts_queued_processItem [OF Cons.prems, of item] step by simp
  then show ?case
    using Cons.IH step by (cases r) simp_all
qed

lemma posts_queued_processTweetActions:
  "list_all postIsQueued (sends w)
   \<Longrightarrow> list_all postIsQueued (sends (snd (processTweetActions fetched w)))"
proof (cases fetched)
  case None
  then show "list_all postIsQueued (sends w) \<Longrightarrow> ?thesis"
    by (simp add: processTweetActions_def)
next
  case (Some items)
  assume q: "list_all postIsQueued (sends w)"
  obtain r w2 where run: "processTimeline items [] (w\<lparr>isProcessing := True\<rparr>) = (r, w2)"
    by (cases "processTimeline items [] (w\<lparr>isProcessing := True\<rparr>)")
  have "list_all postIsQueued (sends w2)"
    using posts_queued_processTimeline [of "w\<lparr>isProcessing := True\<rparr>" items "[]"] q run
    by simp
  then show ?thesis using Some q run by (simp add: processTweetActions_def)
qed

lemma posts_queued_generateNewTweet:
  "list_all postIsQueued (sends w)
   \<Longrightarrow> list_all postIsQueued (sends (snd (generateNewTweet env w)))"
  by (auto simp: generateNewTweet_def saveTweetToDb_def saveTweetObject_def Let_def
           split: llm.splits option.splits response.splits)

lemma posts_queued_dispatch:
  "list_all postIsQueued (sends w)
   \<Longrightarrow> list_all postIsQueued (sends (snd (dispatch dryRun env tweet w)))"
  by (auto simp: dispatch_def sendTweetAndUpdateCache_def markTweetAsSent_def
                 markTweetAsError_def Let_def
           split: response.splits stored_timeline.splits)

lemma posts_queued_sendApproved:
  "list_all postIsQueued (sends w)
   \<Longrightarrow> list_all postIsQueued (sends (sendApproved dryRun rows w))"
proof (induction rows arbitrary: w)
  case Nil
  then show ?case by simp
next
  case (Cons row rest)
  obtain tweet env where row: "row = (tweet, env)" by (cases row)
  obtain sig w' where step: "dispatch dryRun env tweet w = (sig, w')"
    by (cases "dispatch dryRun env tweet w")
  have "list_all postIsQueued (sends w')"
    using posts_queued_dispatch [OF Cons.prems, of dryRun env tweet] step by simp
  then show ?case
    using Cons.IH row step by (cases sig) simp_all
qed

text \<open>
  C4. The claim says that every write to the social network goes through the request
  queue. For an item whose decision is like and retweet, the source calls
  \<open>twitterClient.likeTweet\<close> and \<open>twitterClient.retweet\<close> on the client itself; the quote
  and the reply of the same function do go through \<open>requestQueue.add\<close>.
\<close>

theorem processTweetActions_like_retweet_bypass_queue:
  "sends (snd (processTweetActions
                 (Some [itemOne\<lparr>classification := Returned (Some likeAndRetweet)\<rparr>])
                 emptyWorld))
     = [Direct (LikeTweet ''t1''), Direct (Retweet ''t1'')]
   \<and> sends (snd (processTweetActions (Some [itemOne]) emptyWorld))
     = [Direct (LikeTweet ''t1''), Direct (Retweet ''t1''),
        Queued (SendQuoteTweet ''wow'' ''t1''),
        Queued (SendTweet ''nice'' (Some ''t1'') False)]"
  by code_simp

section \<open>The generation loop\<close>

text \<open>
  \<open>start\<close> adds two generation timers, whatever the configuration; the callback of a
  generation timer runs \<open>generateNewTweet\<close> once and adds one timer.
\<close>

lemma generation_timers_setTimeout:
  "filter isGenerationTimer (timers (setTimeout cb d s))
     = filter isGenerationTimer (timers s)
       @ (if cb = GenerateTweetTimer
          then [(nowMs s + (if d < 1 \<or> 2147483647 < d then 1 else d), cb)] else [])"
  by (simp add: setTimeout_def Let_def isGenerationTimer_def)

lemma generation_timers_loop:
  "length (filter isGenerationTimer (timers (generateNewTweetLoop s)))
     = Suc (length (filter isGenerationTimer (timers s)))"
  by (simp add: generateNewTweetLoop_def getPostInterval_def generation_timers_setTimeout
           split: option.splits)

lemma generation_timers_approved:
  "filter isGenerationTimer (timers (startApprovedTweetsLoop s))
     = filter isGenerationTimer (timers s)"
  by (simp add: startApprovedTweetsLoop_def Let_def generation_timers_setTimeout)

lemma generation_timers_actions:
  "filter isGenerationTimer (timers (processActionsLoop cfg s))
     = filter isGenerationTimer (timers s)"
  by (simp add: processActionsLoop_def Let_def generation_timers_setTimeout isGenerationTimer_def
           split: pass_kind.splits)

lemma start_adds_two_generation_timers:
  "length (filter isGenerationTimer (timers (start cfg s)))
     = length (filter isGenerationTimer (timers s)) + 2"
  by (simp add: start_def Let_def generation_timers_loop generation_timers_actions
                generation_timers_approved)

lemma generation_timer_reschedules_once:
  "generated (runTask cfg GenerateTweetTimer s) = Suc (generated s)
   \<and> length (filter isGenerationTimer (timers (runTask cfg GenerateTweetTimer s)))
     = Suc (length (filter isGenerationTimer (timers s)))"
  by (simp add: runTask_def generation_timers_loop)
     (simp add: generateNewTweetLoop_def getPostInterval_def setTimeout_def Let_def
           split: option.splits)

text \<open>
  C7. The claim says that one timer chain runs and that each elapsed interval brings
  exactly one invocation of \<open>generateNewTweet\<close>. \<open>start\<close> calls \<open>generateNewTweetLoop\<close>
  twice, once before and once after it sets the action loop going, so two generation
  timers are pending after \<open>start\<close>. With the interval at 30 minutes, when 1800000
  milliseconds have elapsed \<open>generateNewTweet\<close> has run twice, after two intervals four
  times, and two generation timers are pending again.
\<close>

theorem start_two_generation_chains:
  "timers (start plainStart freshScheduler)
     = [(300000, ApprovedTweetsLoop), (1800000, GenerateTweetTimer),
        (1800000, GenerateTweetTimer)]
   \<and> generated (runUntil 100 1800000 plainStart (start plainStart freshScheduler)) = 2
   \<and> quiet 1800000 (runUntil 100 1800000 plainStart (start plainStart freshScheduler))
   \<and> generated (runUntil 100 3600000 plainStart (start plainStart freshScheduler)) = 4
   \<and> quiet 3600000 (runUntil 100 3600000 plainStart (start plainStart freshScheduler))
   \<and> filter isGenerationTimer
        (timers (runUntil 100 3600000 plainStart (start plainStart freshScheduler)))
     = [(5400000, GenerateTweetTimer), (5400000, GenerateTweetTimer)]"
  by code_simp

end
